theory Spec2Isabelle
  imports Main "HOL-Library.Word" "HOL-Library.Sublist"
begin

unbundle bit_operations_syntax

section \<open>Errors and string helpers shared by every package\<close>

text \<open>
  Go errors are values. \<open>ENOTDIR\<close> is \<open>syscall.ENOTDIR\<close>, \<open>ErrNotExist\<close> and
  \<open>ErrExist\<close> are the errors of package \<open>os\<close>, \<open>errTooManyLinks\<close> and
  \<open>errBadMode\<close> are the error variables of package \<open>fs\<close>. \<open>ErrReadLink\<close>
  and \<open>ErrAbsLink\<close> are the two errors that \<open>runSymlink\<close> wraps,
  \<open>ErrSymlinkOutside\<close> and \<open>ErrUnsupportedType\<close> the two it and
  \<open>runRecursive\<close> make with \<open>fmt.Errorf\<close>, \<open>ErrNoImageID\<close> the error of
  \<open>buildVolumeInitImage\<close> for a build output without image ID. \<open>ErrOther\<close>
  stands for any error made outside the modelled code (an error seeded into the
  in-memory file system by a test, an error of the docker daemon, of the tar writer or
  of the JSON decoder), identified by its message. \<open>Panic\<close> is not an error
  return: it marks a call that aborts by a Go panic, kept as a value so that every way
  out of a function is a branch of its model.
\<close>

datatype error =
    ENOTDIR
  | ErrNotExist
  | ErrExist
  | errTooManyLinks
  | errBadMode
  | ErrOther string
  | ErrReadLink string error
  | ErrAbsLink string error
  | ErrSymlinkOutside string string
  | ErrUnsupportedType string "32 word"
  | ErrNoImageID
  | Panic string

text \<open>
  The file names that the message of an error quotes: \<open>ErrSymlinkOutside\<close> is
  \<open>fmt.Errorf("target of symlink %#v it outside the bind volume with host %#v",
  hostFile, h.rootHostFile)\<close>, \<open>ErrUnsupportedType\<close> quotes the host file and
  gives the type bits, \<open>ErrReadLink\<close> and \<open>ErrAbsLink\<close> wrap an error with a
  message that quotes the host file and the link.
\<close>

fun quotedNames :: "error \<Rightarrow> string list" where
  "quotedNames (ErrSymlinkOutside hostFile rootHostFile) = [hostFile, rootHostFile]"
| "quotedNames (ErrUnsupportedType hostFile m) = [hostFile]"
| "quotedNames (ErrReadLink hostFile e) = [hostFile]"
| "quotedNames (ErrAbsLink link e) = [link]"
| "quotedNames e = []"

text \<open>\<open>strings.IndexByte\<close>: the index of the first occurrence, \<open>-1\<close> when absent.\<close>

fun IndexByte :: "string \<Rightarrow> char \<Rightarrow> int" where
  "IndexByte [] c = -1"
| "IndexByte (x # xs) c =
     (if x = c then 0 else (let r = IndexByte xs c in if r < 0 then -1 else r + 1))"

text \<open>\<open>strings.HasPrefix\<close>.\<close>

definition HasPrefix :: "string \<Rightarrow> string \<Rightarrow> bool" where
  "HasPrefix s p = (length p \<le> length s \<and> take (length p) s = p)"

text \<open>\<open>strings.Join\<close>.\<close>

fun Join :: "string list \<Rightarrow> string \<Rightarrow> string" where
  "Join [] sep = []"
| "Join [x] sep = x"
| "Join (x # y # ys) sep = x @ sep @ Join (y # ys) sep"

text \<open>
  \<open>strings.Split\<close> with a one-byte separator: the pieces between the separators,
  empty pieces kept, so a string without separator gives one piece.
\<close>

fun Split :: "string \<Rightarrow> char \<Rightarrow> string list" where
  "Split [] c = [[]]"
| "Split (x # xs) c =
     (if x = c then [] # Split xs c
      else (case Split xs c of [] \<Rightarrow> [[x]] | p # ps \<Rightarrow> (x # p) # ps))"

text \<open>The verb \<open>%d\<close> of \<open>fmt\<close> on a non-negative integer.\<close>

definition digitChar :: "nat \<Rightarrow> char" where
  "digitChar d = ''0123456789'' ! d"

fun itoa :: "nat \<Rightarrow> string" where
  "itoa n = (if n < 10 then [digitChar n] else itoa (n div 10) @ [digitChar (n mod 10)])"

declare itoa.simps [simp del]

section \<open>Package up: the Dockerfile of the volume-init image\<close>

text \<open>
  \<open>buildVolumeInitImageGetDockerfile\<close> writes into a buffer: a fixed head, one
  \<open>COPY\<close> line per entry of \<open>isDirSlice\<close> (first loop, \<open>i\<close> from 1 to the length),
  the start of the \<open>ENTRYPOINT\<close> line, one \<open>cp\<close> command per entry with
  \<open>" && "\<close> before every command but the first (second loop), and the closing
  bracket. Both loops are modelled as the counting loops they are; the buffer is the
  last argument.
\<close>

function copyLoop :: "bool list \<Rightarrow> nat \<Rightarrow> string \<Rightarrow> string" where
  "copyLoop isDirSlice i b =
     (if i \<le> length isDirSlice then
        copyLoop isDirSlice (i + 1)
          (b @ (if isDirSlice ! (i - 1)
                then ''COPY data'' @ itoa i @ ''/ /app/data/vol'' @ itoa i @ ''/\<newline>''
                else ''COPY data'' @ itoa i @ '' /app/data/vol'' @ itoa i @ ''\<newline>''))
      else b)"
  by pat_completeness auto
termination
  by (relation "measure (\<lambda>(ds, i, b). Suc (length ds) - i)") auto

declare copyLoop.simps [simp del]

function cpLoop :: "bool list \<Rightarrow> nat \<Rightarrow> string \<Rightarrow> string" where
  "cpLoop isDirSlice i b =
     (if i \<le> length isDirSlice then
        cpLoop isDirSlice (i + 1)
          ((if i > 1 then b @ '' && '' else b)
             @ ''cp -r /app/data/vol'' @ itoa i @ '' /mnt/vol'' @ itoa i @ ''/root'')
      else b)"
  by pat_completeness auto
termination
  by (relation "measure (\<lambda>(ds, i, b). Suc (length ds) - i)") auto

declare cpLoop.simps [simp del]

definition buildVolumeInitImageGetDockerfile :: "bool list \<Rightarrow> string" where
  \<open>buildVolumeInitImageGetDockerfile isDirSlice =
     (let b = ''ARG BASE_IMAGE\<newline>FROM ${BASE_IMAGE}\<newline>'';
          b = copyLoop isDirSlice 1 b;
          b = b @ ''ENTRYPOINT ["bash", "-c", "'';
          b = cpLoop isDirSlice 1 b
      in b @ ''"]\<newline>'')\<close>

text \<open>
  The same text as the specification words it: the \<open>i\<close>-th \<open>COPY\<close> line has a slash
  after the source and after the destination exactly when entry \<open>i\<close> is a directory,
  and the \<open>cp\<close> commands are joined with \<open>" && "\<close> in index order.
\<close>

definition specCopyLine :: "nat \<Rightarrow> bool \<Rightarrow> string" where
  "specCopyLine i isDir =
     ''COPY data'' @ itoa i @ (if isDir then ''/'' else '''')
       @ '' /app/data/vol'' @ itoa i @ (if isDir then ''/'' else '''') @ ''\<newline>''"

definition specCpCommand :: "nat \<Rightarrow> string" where
  "specCpCommand i = ''cp -r /app/data/vol'' @ itoa i @ '' /mnt/vol'' @ itoa i @ ''/root''"

definition specDockerfile :: "bool list \<Rightarrow> string" where
  \<open>specDockerfile isDirSlice =
     ''ARG BASE_IMAGE\<newline>FROM ${BASE_IMAGE}\<newline>''
       @ concat (map (\<lambda>i. specCopyLine i (isDirSlice ! (i - 1))) [1..<Suc (length isDirSlice)])
       @ ''ENTRYPOINT ["bash", "-c", "''
       @ Join (map specCpCommand [1..<Suc (length isDirSlice)]) '' && ''
       @ ''"]\<newline>''\<close>

section \<open>Package docker: resolving a pulled image\<close>

text \<open>
  \<open>dockerTypes.ImageSummary\<close>, with the two fields the function reads.
\<close>

record ImageSummary =
  ID :: string
  RepoDigests :: "string list"

text \<open>
  The inner loop of \<open>ResolveLocalImageAfterPull\<close>, over the repo digests of one image.
\<close>

fun repoDigestsLoop :: "string \<Rightarrow> string list \<Rightarrow> bool" where
  "repoDigestsLoop repoDigest [] = False"
| "repoDigestsLoop repoDigest (repoDigest2 # rest) =
     (if repoDigest = repoDigest2 then True else repoDigestsLoop repoDigest rest)"

text \<open>The outer loop, over the image summaries; the result is the triple returned.\<close>

fun imageSummariesLoop :: "string \<Rightarrow> ImageSummary list \<Rightarrow> string \<times> string \<times> error option" where
  "imageSummariesLoop repoDigest [] = ('''', '''', None)"
| "imageSummariesLoop repoDigest (s # rest) =
     (if repoDigestsLoop repoDigest (RepoDigests s) then (ID s, repoDigest, None)
      else imageSummariesLoop repoDigest rest)"

text \<open>
  \<open>ResolveLocalImageAfterPull\<close>. The docker daemon and the reference library are
  outside the repository: \<open>imageList\<close> is what \<open>lister.ImageList\<close> returned (an
  error or the summaries) and \<open>familiarName\<close> is \<open>dockerRef.FamiliarName(named)\<close>.
  The result is \<open>(imageID, repoDigest, err)\<close>.
\<close>

definition ResolveLocalImageAfterPull ::
  "(error + ImageSummary list) \<Rightarrow> string \<Rightarrow> string \<Rightarrow> string \<times> string \<times> error option" where
  "ResolveLocalImageAfterPull imageList familiarName digest =
     (case imageList of
        Inl e \<Rightarrow> ('''', '''', Some e)
      | Inr imageSummaries \<Rightarrow>
          imageSummariesLoop (familiarName @ ''@'' @ digest) imageSummaries)"

section \<open>Package up: reading the image identifier from the build output\<close>

text \<open>
  \<open>buildVolumeInitImageResult\<close>.
\<close>

record buildVolumeInitImageResult =
  isDirSlice :: "bool list"
  imageID :: string

text \<open>
  The body of the build response, as the JSON decoder delivers it: each call of
  \<open>decoder.Decode\<close> gives a message, of which the loop reads the field \<open>Stream\<close>,
  or fails; after the last event of the list the decoder reports \<open>io.EOF\<close>.
\<close>

datatype decodeEvent = Decoded string | DecodeFailed error

text \<open>
  Modelled from the spec: the constants \<open>docker.Sha256BitLength\<close> and
  \<open>docker.Sha256Prefix\<close> and the expression \<open>docker.NewDigestRegexp()\<close> are not in
  the sources. The spec gives the digest pattern as \<open>sha256:\<close> followed by 64
  hexadecimal characters. \<open>digestFindStringIndex\<close> is \<open>FindStringIndex\<close> of that
  pattern: the bounds of the leftmost match.
\<close>

definition Sha256BitLength :: nat where
  "Sha256BitLength = 256"

definition Sha256Prefix :: string where
  "Sha256Prefix = ''sha256:''"

definition isHexChar :: "char \<Rightarrow> bool" where
  "isHexChar c = (c \<in> set ''0123456789abcdefABCDEF'')"

definition digestMatchesAt :: "string \<Rightarrow> bool" where
  "digestMatchesAt s =
     (HasPrefix s Sha256Prefix
      \<and> length Sha256Prefix + Sha256BitLength div 4 \<le> length s
      \<and> list_all isHexChar (take (Sha256BitLength div 4) (drop (length Sha256Prefix) s)))"

fun digestFindFrom :: "nat \<Rightarrow> string \<Rightarrow> (nat \<times> nat) option" where
  "digestFindFrom k [] = None"
| "digestFindFrom k (c # cs) =
     (if digestMatchesAt (c # cs)
      then Some (k, k + length Sha256Prefix + Sha256BitLength div 4)
      else digestFindFrom (k + 1) cs)"

definition digestFindStringIndex :: "string \<Rightarrow> (nat \<times> nat) option" where
  "digestFindStringIndex s = digestFindFrom 0 s"

text \<open>
  The decoding loop of \<open>buildVolumeInitImage\<close>. The last argument is \<open>r.imageID\<close>.
  \<open>FindStringIndex\<close> is the matcher of \<open>digestRegexp\<close>. The slice
  \<open>msg.Stream[loc[0] : loc[0]+i]\<close> panics when it ends beyond the string.
\<close>

fun decodeLoop ::
  "(string \<Rightarrow> (nat \<times> nat) option) \<Rightarrow> decodeEvent list \<Rightarrow> string \<Rightarrow> error + string" where
  "decodeLoop FindStringIndex [] r_imageID = Inr r_imageID"
| "decodeLoop FindStringIndex (DecodeFailed e # rest) r_imageID = Inl e"
| "decodeLoop FindStringIndex (Decoded stream # rest) r_imageID =
     (case FindStringIndex stream of
        Some loc \<Rightarrow>
          (let i = Sha256BitLength div 4 + length Sha256Prefix in
           if fst loc + i \<le> length stream
           then decodeLoop FindStringIndex rest (take i (drop (fst loc) stream))
           else Inl (Panic ''slice bounds out of range''))
      | None \<Rightarrow> decodeLoop FindStringIndex rest r_imageID)"

text \<open>
  \<open>buildVolumeInitImage\<close>. Its two calls that leave the repository are arguments:
  \<open>buildContext\<close> is the outcome of \<open>buildVolumeInitImageGetBuildContext\<close> (an error,
  or the \<open>isDirSlice\<close> it stored in \<open>r\<close>), \<open>response\<close> is the outcome of
  \<open>dc.ImageBuild\<close> (an error, or the decoded body).
\<close>

definition buildVolumeInitImage ::
  "(string \<Rightarrow> (nat \<times> nat) option) \<Rightarrow> (error + bool list) \<Rightarrow> (error + decodeEvent list)
     \<Rightarrow> error + buildVolumeInitImageResult" where
  "buildVolumeInitImage FindStringIndex buildContext response =
     (case buildContext of
        Inl e \<Rightarrow> Inl e
      | Inr ds \<Rightarrow>
          (case response of
             Inl e \<Rightarrow> Inl e
           | Inr body \<Rightarrow>
               (case decodeLoop FindStringIndex body '''' of
                  Inl e \<Rightarrow> Inl e
                | Inr r_imageID \<Rightarrow>
                    if r_imageID = '''' then Inl ErrNoImageID
                    else Inr \<lparr>isDirSlice = ds, imageID = r_imageID\<rparr>)))"

text \<open>
  The image identifier as the specification words it: the first match across the
  whole stream, that is the match of the first message that has one.
\<close>

definition specFirstMatch ::
  "(string \<Rightarrow> (nat \<times> nat) option) \<Rightarrow> string list \<Rightarrow> string option" where
  "specFirstMatch FindStringIndex streams =
     (case List.find (\<lambda>s. FindStringIndex s \<noteq> None) streams of
        None \<Rightarrow> None
      | Some s \<Rightarrow> Some (take (Sha256BitLength div 4 + length Sha256Prefix)
                         (drop (fst (the (FindStringIndex s))) s)))"

text \<open>What the loop keeps: the match of the last message that has one.\<close>

definition lastMatch ::
  "(string \<Rightarrow> (nat \<times> nat) option) \<Rightarrow> string list \<Rightarrow> string option" where
  "lastMatch FindStringIndex streams = specFirstMatch FindStringIndex (rev streams)"

section \<open>Package fs: the in-memory file system\<close>

subsection \<open>File modes\<close>

text \<open>
  \<open>os.FileMode\<close> is a \<open>uint32\<close>; the constants are those of the Go standard library.
\<close>

definition ModeDir :: "32 word" where "ModeDir = 0x80000000"
definition ModeAppend :: "32 word" where "ModeAppend = 0x40000000"
definition ModeExclusive :: "32 word" where "ModeExclusive = 0x20000000"
definition ModeTemporary :: "32 word" where "ModeTemporary = 0x10000000"
definition ModeSymlink :: "32 word" where "ModeSymlink = 0x08000000"
definition ModeDevice :: "32 word" where "ModeDevice = 0x04000000"
definition ModeNamedPipe :: "32 word" where "ModeNamedPipe = 0x02000000"
definition ModeSocket :: "32 word" where "ModeSocket = 0x01000000"
definition ModeSetuid :: "32 word" where "ModeSetuid = 0x00800000"
definition ModeSetgid :: "32 word" where "ModeSetgid = 0x00400000"
definition ModeCharDevice :: "32 word" where "ModeCharDevice = 0x00200000"
definition ModeSticky :: "32 word" where "ModeSticky = 0x00100000"
definition ModeIrregular :: "32 word" where "ModeIrregular = 0x00080000"

definition ModeType :: "32 word" where
  "ModeType = ModeDir OR ModeSymlink OR ModeNamedPipe OR ModeSocket OR ModeDevice
                OR ModeCharDevice OR ModeIrregular"

definition ModePerm :: "32 word" where "ModePerm = 0x1FF"

definition IsDir :: "32 word \<Rightarrow> bool" where
  "IsDir m = (m AND ModeDir \<noteq> 0)"

definition IsRegular :: "32 word \<Rightarrow> bool" where
  "IsRegular m = (m AND ModeType = 0)"

text \<open>\<open>os.IsNotExist\<close>, on the error values of this model.\<close>

definition IsNotExist :: "error option \<Rightarrow> bool" where
  "IsNotExist e = (e = Some ErrNotExist)"

subsection \<open>Nodes\<close>

text \<open>
  Modelled from the spec: the declaration of \<open>node\<close> is not in the sources. The spec
  gives a node a name component, a mode, an optional seeded error, and by kind a byte
  payload (regular file), a target byte string (symbolic link) or an ordered list of
  child nodes (directory). The sources read the fields \<open>mode\<close>, \<open>err\<close> and
  \<open>extra\<close>, the latter as \<open>[]byte\<close> for a link. The model keeps the two uses of
  \<open>extra\<close> as two fields, the unused one empty.
\<close>

datatype node =
  Node (name: string) (mode: "32 word") (err: "error option")
       (extraBytes: string) (extraNodes: "node list")

text \<open>
  Modelled from the spec: \<open>dirLookup\<close>, \<open>dirAppend\<close>, \<open>newDirNode\<close> and
  \<open>validateNameComp\<close> are not in the sources. Lookup is linear in insertion order and
  gives the first child of that name; a new child is appended after the others; a new
  directory node has the directory bit, the permission bits given and no children. A
  name component must not be empty, \<open>.\<close> or \<open>..\<close> and holds no slash;
  \<open>validateNameComp\<close> returns nothing, so a rejected component can only abort the
  caller: the callers below return \<open>Panic\<close> then.
\<close>

definition dirLookupIndex :: "node \<Rightarrow> string \<Rightarrow> nat option" where
  "dirLookupIndex n nameComp =
     List.find (\<lambda>i. name (extraNodes n ! i) = nameComp) [0..<length (extraNodes n)]"

definition dirLookup :: "node \<Rightarrow> string \<Rightarrow> node option" where
  "dirLookup n nameComp = List.find (\<lambda>c. name c = nameComp) (extraNodes n)"

definition dirAppend :: "node \<Rightarrow> node \<Rightarrow> node" where
  "dirAppend n childN =
     Node (name n) (mode n) (err n) (extraBytes n) (extraNodes n @ [childN])"

definition newDirNode :: "32 word \<Rightarrow> string \<Rightarrow> node" where
  "newDirNode perm nameComp = Node nameComp (perm OR ModeDir) None [] []"

definition validateNameComp :: "string \<Rightarrow> bool" where
  "validateNameComp nameComp =
     (nameComp \<noteq> [] \<and> nameComp \<noteq> ''.'' \<and> nameComp \<noteq> ''..'' \<and> CHR ''/'' \<notin> set nameComp)"

text \<open>
  The Go code holds nodes by pointer. Where a node is only read the model holds the
  node itself; where a node is changed (\<open>dirAppend\<close> in \<open>mkdirCommon\<close>) it is named
  by the list of child indices that leads to it from the root.
\<close>

fun nodeAt :: "node \<Rightarrow> nat list \<Rightarrow> node" where
  "nodeAt n [] = n"
| "nodeAt n (i # ref) = (if i < length (extraNodes n) then nodeAt (extraNodes n ! i) ref else n)"

fun dirAppendAt :: "node \<Rightarrow> nat list \<Rightarrow> node \<Rightarrow> node" where
  "dirAppendAt n [] childN = dirAppend n childN"
| "dirAppendAt n (i # ref) childN =
     (if i < length (extraNodes n)
      then Node (name n) (mode n) (err n) (extraBytes n)
             ((extraNodes n)[i := dirAppendAt (extraNodes n ! i) ref childN])
      else n)"

text \<open>
  The file system object: the root node, the current directory and the error hook of
  \<open>Abs\<close>. The receiver is called \<open>virtualFileSystem\<close> in \<open>EvalSymlinks\<close> and
  \<open>InMemoryFileSystem\<close> in \<open>mkdirCommon\<close>; it is one structure.
\<close>

record InMemoryFileSystem =
  root :: node
  cwd :: string
  AbsError :: "error option"

text \<open>
  Modelled from the spec: \<open>find\<close> is not in the sources. From its two call sites it
  takes a name and returns the node reached, the part of the name that is left, and
  an error. The model walks the slash-separated components from the root (from the
  current directory when the name is relative): it fails with not-a-directory when a
  component is looked up in a node that is not a directory (the spec's invariant),
  with not-found when the component is absent, and with the seeded error of a child
  that carries one, as \<open>evalSymlinksHelper.run\<close> does. Symbolic links are not
  followed. The two flags of \<open>find\<close> are not interpreted.
\<close>

function findLoop ::
  "node \<Rightarrow> nat list \<Rightarrow> string \<Rightarrow> nat list \<times> node \<times> string \<times> error option" where
  "findLoop n ref nameRem =
     (if nameRem = [] then (ref, n, [], None)
      else
        (let slashPos = IndexByte nameRem CHR ''/'';
             nameComp = (if slashPos < 0 then nameRem else take (nat slashPos) nameRem);
             rest = (if slashPos < 0 then [] else drop (nat (slashPos + 1)) nameRem)
         in if nameComp = [] then findLoop n ref rest
            else if mode n AND ModeDir = 0 then (ref, n, nameRem, Some ENOTDIR)
            else (case dirLookupIndex n nameComp of
                    None \<Rightarrow> (ref, n, nameRem, Some ErrNotExist)
                  | Some i \<Rightarrow>
                      (case err (extraNodes n ! i) of
                         Some e \<Rightarrow> (ref, n, nameRem, Some e)
                       | None \<Rightarrow> findLoop (extraNodes n ! i) (ref @ [i]) rest))))"
  by pat_completeness auto
termination
proof (relation "measure (\<lambda>(n, ref, nameRem). length nameRem)")
  show "wf (measure (\<lambda>(n, ref, nameRem). length nameRem))" by simp
next
  fix n :: node and ref :: "nat list" and nameRem :: string
    and slashPos :: int and nameComp rest :: string
  assume ne: "nameRem \<noteq> []"
    and sp: "slashPos = IndexByte nameRem CHR ''/''"
    and nc: "nameComp = (if slashPos < 0 then nameRem else take (nat slashPos) nameRem)"
    and re: "rest = (if slashPos < 0 then [] else drop (nat (slashPos + 1)) nameRem)"
  have lt: "length rest < length nameRem"
  proof (cases "slashPos < 0")
    case True
    with re ne show ?thesis by simp
  next
    case False
    with re ne show ?thesis by (simp add: nat_add_distrib)
  qed
  {
    assume "nameComp = []"
    from lt show "((n, ref, rest), (n, ref, nameRem))
        \<in> measure (\<lambda>(n, ref, nameRem). length nameRem)" by simp
  }
  {
    fix i
    from lt show "((extraNodes n ! i, ref @ [i], rest), (n, ref, nameRem))
        \<in> measure (\<lambda>(n, ref, nameRem). length nameRem)" by simp
  }
qed

declare findLoop.simps [simp del]

definition find_node ::
  "InMemoryFileSystem \<Rightarrow> string \<Rightarrow> nat list \<times> node \<times> string \<times> error option" where
  "find_node fs nm =
     (if nm \<noteq> [] \<and> hd nm = CHR ''/'' then findLoop (root fs) [] (tl nm)
      else
        (case findLoop (root fs) [] (cwd fs) of
           (ref, n, nameRem, Some e) \<Rightarrow> (ref, n, nameRem, Some e)
         | (ref, n, nameRem, None) \<Rightarrow> findLoop n ref nm))"

subsection \<open>EvalSymlinks\<close>

text \<open>
  The fields of the helper carry the prefix \<open>h_\<close> in the model (\<open>h.fs\<close>,
  \<open>h.n\<close>, \<open>h.links\<close>, \<open>h.resolved\<close>, \<open>h.nameRem\<close>).
\<close>

record evalSymlinksHelper =
  h_fs :: InMemoryFileSystem
  h_n :: node
  h_links :: int
  h_resolved :: string
  h_nameRem :: string

definition getNameComp :: "evalSymlinksHelper \<Rightarrow> int \<Rightarrow> string" where
  "getNameComp h slashPos =
     (if slashPos < 0 then h_nameRem h else take (nat slashPos) (h_nameRem h))"

definition updateNameRemFromSlashPos :: "evalSymlinksHelper \<Rightarrow> int \<Rightarrow> evalSymlinksHelper" where
  "updateNameRemFromSlashPos h slashPos =
     (if slashPos < 0 then h\<lparr>h_nameRem := []\<rparr>
      else h\<lparr>h_nameRem := drop (nat (slashPos + 1)) (h_nameRem h)\<rparr>)"

text \<open>
  \<open>updateFromChildN\<close> returns the error and the helper as the call leaves it. The
  counter \<open>links\<close> is a Go \<open>int\<close>; it starts at 0 and the function stops at 256, so
  it is modelled by an unbounded integer.
\<close>

definition updateFromChildN ::
  "evalSymlinksHelper \<Rightarrow> node \<Rightarrow> string \<Rightarrow> error option \<times> evalSymlinksHelper" where
  "updateFromChildN h childN nameComp =
     (if mode childN AND ModeSymlink \<noteq> 0 then
        (let h = h\<lparr>h_links := h_links h + 1\<rparr> in
         if h_links h > 255 then (Some errTooManyLinks, h)
         else
           (let target = extraBytes childN;
                absolute = (length target > 0 \<and> target ! 0 = CHR ''/'');
                h = (if absolute then h\<lparr>h_resolved := ''/'', h_n := root (h_fs h)\<rparr> else h);
                j = (if absolute then 1 else 0 :: nat)
            in if h_nameRem h \<noteq> []
               then (None, h\<lparr>h_nameRem := drop j target @ ''/'' @ h_nameRem h\<rparr>)
               else (None, h\<lparr>h_nameRem := drop j target\<rparr>)))
      else (None, h\<lparr>h_resolved := h_resolved h @ ''/'' @ nameComp, h_n := childN\<rparr>))"

text \<open>
  The loop of \<open>run\<close>. Whether it ends is part of what is to be proved, so it is a
  partial function: \<open>None\<close> would be a loop that never returns.
\<close>

partial_function (option) run ::
  "evalSymlinksHelper \<Rightarrow> (error option \<times> evalSymlinksHelper) option" where
  "run h =
     (if h_nameRem h \<noteq> [] then
        (let slashPos = IndexByte (h_nameRem h) CHR ''/'';
             nameComp = getNameComp h slashPos
         in if nameComp \<noteq> [] then
              (if \<not> validateNameComp nameComp then Some (Some (Panic nameComp), h)
               else if mode (h_n h) AND ModeDir = 0 then Some (Some ENOTDIR, h)
               else (case dirLookup (h_n h) nameComp of
                       None \<Rightarrow> Some (Some ErrNotExist, h)
                     | Some childN \<Rightarrow>
                         (case err childN of
                            Some e \<Rightarrow> Some (Some e, h)
                          | None \<Rightarrow>
                              (case updateFromChildN (updateNameRemFromSlashPos h slashPos)
                                      childN nameComp of
                                 (Some e, h') \<Rightarrow> Some (Some e, h')
                               | (None, h') \<Rightarrow> run h'))))
            else run (updateNameRemFromSlashPos h slashPos))
      else Some (None, h))"

declare run.simps [code]

text \<open>
  \<open>EvalSymlinks\<close>: the helper as the function sets it up, or the error it returns
  before the loop; then the loop. The result is \<open>(h.resolved, err)\<close>.
\<close>

definition evalSymlinksStart :: "InMemoryFileSystem \<Rightarrow> string \<Rightarrow> error + evalSymlinksHelper" where
  "evalSymlinksStart vfs path =
     (if path \<noteq> [] \<and> path ! 0 = CHR ''/'' then
        (case err (root vfs) of
           Some e \<Rightarrow> Inl e
         | None \<Rightarrow> Inr \<lparr>h_fs = vfs, h_n = root vfs, h_links = 0, h_resolved = ''/'', h_nameRem = drop 1 path\<rparr>)
      else
        (case find_node vfs (cwd vfs) of
           (ref, n', rem, Some e) \<Rightarrow> Inl e
         | (ref, n', rem, None) \<Rightarrow>
             Inr \<lparr>h_fs = vfs, h_n = n', h_links = 0, h_resolved = [], h_nameRem = path\<rparr>))"

definition EvalSymlinks :: "InMemoryFileSystem \<Rightarrow> string \<Rightarrow> (string \<times> error option) option" where
  "EvalSymlinks vfs path =
     (case evalSymlinksStart vfs path of
        Inl e \<Rightarrow> Some ([], Some e)
      | Inr h \<Rightarrow>
          (case run h of
             None \<Rightarrow> None
           | Some (e, h') \<Rightarrow> Some (h_resolved h', e)))"

subsection \<open>Mkdir and MkdirAll\<close>

text \<open>
  \<open>mkdirCommonAll\<close> appends a chain of new directories below the node \<open>ref\<close>. The
  new child is the last child of its parent, which gives its index. The result is the
  new root, with \<open>Panic\<close> when \<open>validateNameComp\<close> rejects a component (the
  directories made before stay).
\<close>

function mkdirCommonAll ::
  "node \<Rightarrow> nat list \<Rightarrow> string \<Rightarrow> 32 word \<Rightarrow> error option \<times> node" where
  "mkdirCommonAll rt ref nameRem perm =
     (if nameRem \<noteq> [] then
        (let slashPos = IndexByte nameRem CHR ''/'';
             nameComp = (if slashPos \<ge> 0 then take (nat slashPos) nameRem else nameRem);
             rest = (if slashPos < 0 then [] else drop (nat (slashPos + 1)) nameRem)
         in if nameComp \<noteq> [] then
              (if \<not> validateNameComp nameComp then (Some (Panic nameComp), rt)
               else
                 (let childN = newDirNode perm nameComp;
                      i = length (extraNodes (nodeAt rt ref))
                  in mkdirCommonAll (dirAppendAt rt ref childN) (ref @ [i]) rest perm))
            else mkdirCommonAll rt ref rest perm)
      else (None, rt))"
  by pat_completeness auto
termination
proof (relation "measure (\<lambda>(rt, ref, nameRem, perm). length nameRem)")
  show "wf (measure (\<lambda>(rt, ref, nameRem, perm). length nameRem))" by simp
next
  fix rt :: node and ref :: "nat list" and nameRem :: string and perm :: "32 word"
    and slashPos :: int and nameComp rest :: string
  assume ne: "nameRem \<noteq> []"
    and re: "rest = (if slashPos < 0 then [] else drop (nat (slashPos + 1)) nameRem)"
  have lt: "length rest < length nameRem"
  proof (cases "slashPos < 0")
    case True
    with re ne show ?thesis by simp
  next
    case False
    with re ne show ?thesis by (simp add: nat_add_distrib)
  qed
  {
    fix childN :: node and i :: nat
    from lt show "((dirAppendAt rt ref childN, ref @ [i], rest, perm), (rt, ref, nameRem, perm))
        \<in> measure (\<lambda>(rt, ref, nameRem, perm). length nameRem)" by simp
  }
  from lt show "((rt, ref, rest, perm), (rt, ref, nameRem, perm))
      \<in> measure (\<lambda>(rt, ref, nameRem, perm). length nameRem)" by simp
qed

declare mkdirCommonAll.simps [simp del]

definition mkdirCommon ::
  "InMemoryFileSystem \<Rightarrow> string \<Rightarrow> 32 word \<Rightarrow> bool \<Rightarrow> error option \<times> InMemoryFileSystem" where
  "mkdirCommon vfs nm perm all =
     (if perm AND ModeType \<noteq> 0 then (Some errBadMode, vfs)
      else
        (case find_node vfs nm of
           (ref, n', nameRem', err') \<Rightarrow>
             if err' \<noteq> None \<and> \<not> IsNotExist err' then (err', vfs)
             else if \<not> all then
               (let slashPos = IndexByte nameRem' CHR ''/'' in
                if slashPos \<ge> 0 then (Some ErrNotExist, vfs)
                else if nameRem' = [] then (Some ErrExist, vfs)
                else (None, vfs\<lparr>root := dirAppendAt (root vfs) ref (newDirNode perm nameRem')\<rparr>))
             else if \<not> IsDir (mode n') then (Some ENOTDIR, vfs)
             else
               (case mkdirCommonAll (root vfs) ref nameRem' perm of
                  (Some p, rt) \<Rightarrow> (Some p, vfs\<lparr>root := rt\<rparr>)
                | (None, rt) \<Rightarrow> (None, vfs\<lparr>root := rt\<rparr>))))"

definition Mkdir :: "InMemoryFileSystem \<Rightarrow> string \<Rightarrow> 32 word \<Rightarrow> error option \<times> InMemoryFileSystem" where
  "Mkdir vfs nm perm = mkdirCommon vfs nm perm False"

definition MkdirAll :: "InMemoryFileSystem \<Rightarrow> string \<Rightarrow> 32 word \<Rightarrow> error option \<times> InMemoryFileSystem" where
  "MkdirAll vfs nm perm = mkdirCommon vfs nm perm True"

section \<open>The Go library functions the code calls\<close>

subsection \<open>Package path/filepath, on a Unix host\<close>

text \<open>
  The functions of \<open>path/filepath\<close> are not part of the repository. They are
  modelled for a Unix host, where the separator is the slash, no path has a volume
  name and \<open>ToSlash\<close> changes nothing. \<open>Clean\<close> follows the library's rules: empty
  and \<open>.\<close> elements are dropped, a \<open>..\<close> element removes the element before it,
  is dropped at the root and is kept at the start of a relative path; the empty result
  is \<open>.\<close>.
\<close>

definition Separator :: char where
  "Separator = CHR ''/''"

definition filepath_VolumeName :: "string \<Rightarrow> string" where
  "filepath_VolumeName path = []"

definition filepath_ToSlash :: "string \<Rightarrow> string" where
  "filepath_ToSlash path = path"

fun cleanLoop :: "bool \<Rightarrow> string list \<Rightarrow> string list \<Rightarrow> string list" where
  "cleanLoop rooted out [] = out"
| "cleanLoop rooted out (e # es) =
     (if e = [] \<or> e = ''.'' then cleanLoop rooted out es
      else if e = ''..'' then
        (if out \<noteq> [] \<and> last out \<noteq> ''..'' then cleanLoop rooted (butlast out) es
         else if \<not> rooted then cleanLoop rooted (out @ [''..'']) es
         else cleanLoop rooted out es)
      else cleanLoop rooted (out @ [e]) es)"

definition filepath_Clean :: "string \<Rightarrow> string" where
  "filepath_Clean path =
     (if path = [] then ''.''
      else
        (let rooted = (hd path = Separator);
             out = cleanLoop rooted [] (Split path Separator)
         in if rooted then Separator # Join out [Separator]
            else if out = [] then ''.''
            else Join out [Separator]))"

definition filepath_IsAbs :: "string \<Rightarrow> bool" where
  "filepath_IsAbs path = HasPrefix path [Separator]"

text \<open>\<open>filepath.Join\<close>: the elements from the first non-empty one on, joined and cleaned.\<close>

fun filepath_Join :: "string list \<Rightarrow> string" where
  "filepath_Join [] = []"
| "filepath_Join (e # es) =
     (if e \<noteq> [] then filepath_Clean (Join (e # es) [Separator]) else filepath_Join es)"

text \<open>\<open>filepath.Dir\<close>: the path up to and including its last separator, cleaned.\<close>

definition filepath_Dir :: "string \<Rightarrow> string" where
  "filepath_Dir path = filepath_Clean (rev (dropWhile (\<lambda>c. c \<noteq> Separator) (rev path)))"

text \<open>
  \<open>filepath.Rel\<close>, which works on the cleaned paths element by element: the common
  leading elements are skipped, every element left of the base becomes \<open>..\<close>, and the
  elements left of the target follow. It fails when one path is rooted and the other
  is not, and when the way up from the base would pass a \<open>..\<close> element of the base.
\<close>

fun stripCommon :: "string list \<Rightarrow> string list \<Rightarrow> string list \<times> string list" where
  "stripCommon (b # bs) (t # ts) = (if b = t then stripCommon bs ts else (b # bs, t # ts))"
| "stripCommon bs ts = (bs, ts)"

definition relElems :: "string \<Rightarrow> string list" where
  "relElems p = (if p = [] then [] else if p = [Separator] then [[]] else Split p Separator)"

definition filepath_Rel :: "string \<Rightarrow> string \<Rightarrow> error + string" where
  "filepath_Rel basepath targpath =
     (let base = filepath_Clean basepath;
          targ = filepath_Clean targpath
      in if targ = base then Inr ''.''
         else
           (let base = (if base = ''.'' then [] else base);
                baseSlashed = (base \<noteq> [] \<and> hd base = Separator);
                targSlashed = (targ \<noteq> [] \<and> hd targ = Separator)
            in if baseSlashed \<noteq> targSlashed
               then Inl (ErrOther (''Rel: can't make '' @ targpath @ '' relative to '' @ basepath))
               else
                 (case stripCommon (relElems base) (relElems targ) of
                    (brest, trest) \<Rightarrow>
                      if ''..'' \<in> set brest
                      then Inl (ErrOther (''Rel: can't make '' @ targpath @ '' relative to '' @ basepath))
                      else Inr (Join (map (\<lambda>b. ''..'') brest @ trest) [Separator]))))"

text \<open>
  \<open>Abs\<close> of the file system in use. Modelled from the spec: the method \<open>Abs\<close> of the
  in-memory file system is not in the sources; the spec gives it the error hook
  \<open>AbsError\<close>. Apart from the hook it is \<open>filepath.Abs\<close>: an absolute path is
  cleaned, a relative one is joined to the current directory.
\<close>

definition Abs :: "InMemoryFileSystem \<Rightarrow> string \<Rightarrow> error + string" where
  "Abs vfs path =
     (case AbsError vfs of
        Some e \<Rightarrow> Inl e
      | None \<Rightarrow>
          Inr (if filepath_IsAbs path then filepath_Clean path
               else filepath_Join [cwd vfs, path]))"

subsection \<open>Package archive/tar\<close>

text \<open>
  A tar header, with the fields the code and its tests set, and \<open>os.FileInfo\<close> with
  the fields \<open>FileInfoHeader\<close> reads.
\<close>

datatype Typeflag = TypeReg | TypeDir | TypeSymlink | TypeChar | TypeBlock | TypeFifo

record tarHeader =
  Name :: string
  Typeflag :: Typeflag
  Linkname :: string
  Size :: int

record FileInfo =
  fi_Name :: string
  fi_Size :: int
  fi_Mode :: "32 word"

text \<open>
  \<open>tar.FileInfoHeader\<close>: the header gets the name of the file and, by the mode in
  the order of the library's switch, its type; a regular file gets its size, a
  directory a slash after its name, a symbolic link the link name given. Sockets and
  unknown modes are refused.
\<close>

definition FileInfoHeader :: "FileInfo \<Rightarrow> string \<Rightarrow> error + tarHeader" where
  "FileInfoHeader fi link =
     (let fm = fi_Mode fi;
          h = \<lparr>Name = fi_Name fi, Typeflag = TypeReg, Linkname = [], Size = 0\<rparr>
      in if IsRegular fm then Inr (h\<lparr>Typeflag := TypeReg, Size := fi_Size fi\<rparr>)
         else if IsDir fm then Inr (h\<lparr>Typeflag := TypeDir, Name := Name h @ ''/''\<rparr>)
         else if fm AND ModeSymlink \<noteq> 0 then Inr (h\<lparr>Typeflag := TypeSymlink, Linkname := link\<rparr>)
         else if fm AND ModeDevice \<noteq> 0 then
           (if fm AND ModeCharDevice \<noteq> 0 then Inr (h\<lparr>Typeflag := TypeChar\<rparr>)
            else Inr (h\<lparr>Typeflag := TypeBlock\<rparr>))
         else if fm AND ModeNamedPipe \<noteq> 0 then Inr (h\<lparr>Typeflag := TypeFifo\<rparr>)
         else if fm AND ModeSocket \<noteq> 0 then Inl (ErrOther ''archive/tar: sockets not supported'')
         else Inl (ErrOther ''archive/tar: unknown file mode''))"

text \<open>
  The tar writer. It is the list of entries written so far, each a header with the
  bytes written after it, as in the mock writer of the repository's tests, and a
  script of faults: every call of \<open>WriteHeader\<close> or \<open>Write\<close> takes the next element
  of the script and fails with it when it is an error; after the script no call
  fails. Every run of a real writer is the run of some script.
\<close>

record tarWriter =
  entries :: "(tarHeader \<times> string) list"
  faults :: "error option list"

definition WriteHeader :: "tarWriter \<Rightarrow> tarHeader \<Rightarrow> error option \<times> tarWriter" where
  "WriteHeader w header =
     (case faults w of
        [] \<Rightarrow> (None, w\<lparr>entries := entries w @ [(header, [])]\<rparr>)
      | None # rest \<Rightarrow> (None, w\<lparr>entries := entries w @ [(header, [])], faults := rest\<rparr>)
      | Some e # rest \<Rightarrow> (Some e, w\<lparr>faults := rest\<rparr>))"

definition appendData :: "(tarHeader \<times> string) list \<Rightarrow> string \<Rightarrow> (tarHeader \<times> string) list" where
  "appendData es p =
     (if es = [] then [] else butlast es @ [(fst (last es), snd (last es) @ p)])"

definition Write :: "tarWriter \<Rightarrow> string \<Rightarrow> error option \<times> tarWriter" where
  "Write w p =
     (case faults w of
        [] \<Rightarrow> (None, w\<lparr>entries := appendData (entries w) p\<rparr>)
      | None # rest \<Rightarrow> (None, w\<lparr>entries := appendData (entries w) p, faults := rest\<rparr>)
      | Some e # rest \<Rightarrow> (Some e, w\<lparr>faults := rest\<rparr>))"

section \<open>Package up: resolving the host path of a bind volume\<close>



section \<open>Package up: writing a host file tree into a tar stream\<close>

text \<open>
  The helper of the walk. Its fields carry the prefix \<open>t_\<close> in the model
  (\<open>h.tw\<close>, \<open>h.twMayBeCorrupt\<close>, \<open>h.renameTo\<close>, \<open>h.rootHostFile\<close>,
  \<open>h.rootHostFileVol\<close>, \<open>h.rootHostFileWithoutVol\<close>).
\<close>

record bindMountHostFileToTarHelper =
  t_tw :: tarWriter
  t_twMayBeCorrupt :: bool
  t_renameTo :: string
  t_rootHostFile :: string
  t_rootHostFileVol :: string
  t_rootHostFileWithoutVol :: string

text \<open>
  The host file system. The code reads it with \<open>os.Lstat\<close>, \<open>os.Open\<close>,
  \<open>Readdir\<close> and \<open>os.Readlink\<close>; the model reads the in-memory file system of
  package \<open>fs\<close>, which the repository's tests put in its place. Modelled from the
  spec: the methods \<open>Lstat\<close>, \<open>Open\<close>, \<open>Readdir\<close> and \<open>Readlink\<close> of that file
  system are not in the sources. \<open>Lstat\<close> finds the node of a name without following
  a link at the end; every way of reaching a node that carries a seeded error fails
  with that error; \<open>Readdir\<close> gives the children in insertion order. The tree does
  not change during the walk, so the node that \<open>os.Open(hostFile)\<close> or
  \<open>os.Readlink(hostFile)\<close> reaches is the node whose \<open>FileInfo\<close> the walk holds:
  the functions of the walk take that node, and \<open>fileInfoOf\<close> is its \<open>FileInfo\<close>.
\<close>

definition Lstat :: "InMemoryFileSystem \<Rightarrow> string \<Rightarrow> error + node" where
  "Lstat vfs nm =
     (case find_node vfs nm of
        (ref, nd, rem, Some e) \<Rightarrow> Inl e
      | (ref, nd, rem, None) \<Rightarrow> Inr nd)"

definition fileInfoOf :: "node \<Rightarrow> FileInfo" where
  "fileInfoOf nd = \<lparr>fi_Name = name nd, fi_Size = int (length (extraBytes nd)), fi_Mode = mode nd\<rparr>"

definition endHeaderCommon ::
  "bindMountHostFileToTarHelper \<Rightarrow> tarHeader \<Rightarrow> error option \<times> bindMountHostFileToTarHelper" where
  "endHeaderCommon h header =
     (case WriteHeader (t_tw h) header of
        (None, w) \<Rightarrow> (None, h\<lparr>t_tw := w\<rparr>)
      | (Some e, w) \<Rightarrow> (Some e, h\<lparr>t_tw := w, t_twMayBeCorrupt := True\<rparr>))"

text \<open>
  \<open>runRegular\<close>. \<open>io.Copy\<close> hands the content of the file to the writer; the model
  does it in one \<open>Write\<close>, and in none for an empty file.
\<close>

definition runRegular ::
  "bindMountHostFileToTarHelper \<Rightarrow> node \<Rightarrow> string \<Rightarrow> string
     \<Rightarrow> error option \<times> bindMountHostFileToTarHelper" where
  "runRegular h nd hostFile fileNameInTar =
     (case FileInfoHeader (fileInfoOf nd) [] of
        Inl e \<Rightarrow> (Some e, h)
      | Inr header \<Rightarrow>
          (case err nd of
             Some e \<Rightarrow> (Some e, h)
           | None \<Rightarrow>
               (case endHeaderCommon h (header\<lparr>Name := fileNameInTar\<rparr>) of
                  (Some e, h') \<Rightarrow> (Some e, h')
                | (None, h') \<Rightarrow>
                    if extraBytes nd = [] then (None, h')
                    else
                      (case Write (t_tw h') (extraBytes nd) of
                         (Some e, w) \<Rightarrow> (Some e, h'\<lparr>t_tw := w, t_twMayBeCorrupt := True\<rparr>)
                       | (None, w) \<Rightarrow> (None, h'\<lparr>t_tw := w\<rparr>)))))"

definition isFileWithinBindHostRoot :: "bindMountHostFileToTarHelper \<Rightarrow> string \<Rightarrow> bool" where
  "isFileWithinBindHostRoot h target =
     (let vol = filepath_VolumeName target in
      if vol \<noteq> t_rootHostFileVol h then False
      else
        (let targetWithoutVol = drop (length vol) target in
         if HasPrefix targetWithoutVol (t_rootHostFileWithoutVol h) then
           (if length targetWithoutVol = length (t_rootHostFileWithoutVol h) then True
            else if targetWithoutVol ! length (t_rootHostFileWithoutVol h) = Separator then True
            else False)
         else False))"

text \<open>
  The target of a link as \<open>runSymlink\<close> resolves it: \<open>filepath.Abs\<close> of a link that
  starts with a slash or a backslash (or has a volume name), and otherwise the link
  joined to the directory of the host file.
\<close>

definition linkResolvedOf :: "InMemoryFileSystem \<Rightarrow> string \<Rightarrow> string \<Rightarrow> error + string" where
  "linkResolvedOf vfs hostFile link =
     (let linkIsAbsLike = (link \<noteq> [] \<and> (link ! 0 = CHR 0x5C \<or> link ! 0 = CHR ''/'')) in
      if linkIsAbsLike \<or> filepath_VolumeName link \<noteq> [] then
        (case Abs vfs link of
           Inl e \<Rightarrow> Inl (ErrAbsLink link e)
         | Inr linkResolved \<Rightarrow> Inr linkResolved)
      else Inr (filepath_Join [filepath_Dir hostFile, link]))"

definition runSymlink ::
  "InMemoryFileSystem \<Rightarrow> bindMountHostFileToTarHelper \<Rightarrow> node \<Rightarrow> string \<Rightarrow> string
     \<Rightarrow> error option \<times> bindMountHostFileToTarHelper" where
  "runSymlink vfs h nd hostFile fileNameInTar =
     (case err nd of
        Some e \<Rightarrow> (Some (ErrReadLink hostFile e), h)
      | None \<Rightarrow>
          (case linkResolvedOf vfs hostFile (extraBytes nd) of
             Inl e \<Rightarrow> (Some e, h)
           | Inr linkResolved \<Rightarrow>
               if isFileWithinBindHostRoot h linkResolved then
                 (let linkResolvedInTar =
                        filepath_ToSlash (t_renameTo h @ drop (length (t_rootHostFile h)) linkResolved);
                      linkResolvedInTarRel =
                        (case filepath_Rel (filepath_Dir fileNameInTar) linkResolvedInTar of
                           Inl e \<Rightarrow> []
                         | Inr rel \<Rightarrow> rel)
                  in case FileInfoHeader (fileInfoOf nd) linkResolvedInTarRel of
                       Inl e \<Rightarrow> (Some e, h)
                     | Inr header \<Rightarrow> endHeaderCommon h (header\<lparr>Name := fileNameInTar\<rparr>))
               else (Some (ErrSymlinkOutside hostFile (t_rootHostFile h)), h)))"

text \<open>
  \<open>runRecursive\<close> and \<open>runDirectory\<close> call each other; \<open>runEntries\<close> is the loop
  of \<open>runDirectory\<close> over the entries that \<open>Readdir\<close> returned, with the name of the
  directory header, which ends in a slash.
\<close>

function runRecursive ::
    "InMemoryFileSystem \<Rightarrow> bindMountHostFileToTarHelper \<Rightarrow> node \<Rightarrow> string \<Rightarrow> string
       \<Rightarrow> error option \<times> bindMountHostFileToTarHelper"
  and runDirectory ::
    "InMemoryFileSystem \<Rightarrow> bindMountHostFileToTarHelper \<Rightarrow> node \<Rightarrow> string \<Rightarrow> string
       \<Rightarrow> error option \<times> bindMountHostFileToTarHelper"
  and runEntries ::
    "InMemoryFileSystem \<Rightarrow> bindMountHostFileToTarHelper \<Rightarrow> node list \<Rightarrow> string \<Rightarrow> string
       \<Rightarrow> error option \<times> bindMountHostFileToTarHelper"
where
  "runRecursive vfs h nd hostFile fileNameInTar =
     (if mode nd AND ModeSymlink \<noteq> 0 then runSymlink vfs h nd hostFile fileNameInTar
      else if IsDir (mode nd) then runDirectory vfs h nd hostFile fileNameInTar
      else if IsRegular (mode nd) then runRegular h nd hostFile fileNameInTar
      else (Some (ErrUnsupportedType hostFile (mode nd AND ModeType)), h))"
| "runDirectory vfs h nd hostFile fileNameInTar =
     (case err nd of
        Some e \<Rightarrow> (Some e, h)
      | None \<Rightarrow>
          (case FileInfoHeader (fileInfoOf nd) [] of
             Inl e \<Rightarrow> (Some e, h)
           | Inr header \<Rightarrow>
               (case endHeaderCommon h (header\<lparr>Name := fileNameInTar @ ''/''\<rparr>) of
                  (Some e, h') \<Rightarrow> (Some e, h')
                | (None, h') \<Rightarrow>
                    runEntries vfs h' (extraNodes nd) hostFile (fileNameInTar @ ''/''))))"
| "runEntries vfs h [] hostFile headerName = (None, h)"
| "runEntries vfs h (entry # rest) hostFile headerName =
     (case runRecursive vfs h entry (hostFile @ [Separator] @ name entry)
             (headerName @ name entry) of
        (Some e, h') \<Rightarrow> (Some e, h')
      | (None, h') \<Rightarrow> runEntries vfs h' rest hostFile headerName)"
  by pat_completeness auto
termination
proof -
  have sz: "Suc (2 * size_list size (extraNodes nd)) < 2 * size nd" for nd :: node
    by (cases nd) simp
  show ?thesis
    by (relation "measure (\<lambda>x. case x of
          Inl (vfs, h, nd, hostFile, fileNameInTar) \<Rightarrow> 2 * size nd + 1
        | Inr (Inl (vfs, h, nd, hostFile, fileNameInTar)) \<Rightarrow> 2 * size nd
        | Inr (Inr (vfs, h, nds, hostFile, headerName)) \<Rightarrow> 2 * size_list size nds + 1)")
      (auto simp: sz)
qed

declare runRecursive.simps [simp del]
declare runDirectory.simps [simp del]

text \<open>
  \<open>bindMountHostFileToTarHelper.run\<close>, here \<open>bindMount_run\<close> (the name \<open>run\<close> is
  taken by the loop of \<open>EvalSymlinks\<close>). The result is \<open>(isDir, err)\<close> and the
  helper after the call.
\<close>

definition bindMount_run ::
  "InMemoryFileSystem \<Rightarrow> bindMountHostFileToTarHelper \<Rightarrow> string \<Rightarrow> string
     \<Rightarrow> (bool \<times> error option) \<times> bindMountHostFileToTarHelper" where
  "bindMount_run vfs h hostFile fileNameInTar =
     (case Lstat vfs hostFile of
        Inl e \<Rightarrow> ((False, Some e), h)
      | Inr nd \<Rightarrow>
          (case runRecursive vfs h nd hostFile fileNameInTar of
             (None, h') \<Rightarrow> ((IsDir (mode nd), None), h')
           | (Some e, h') \<Rightarrow>
               if t_twMayBeCorrupt h' then ((False, Some e), h')
               else
                 (case FileInfoHeader (fileInfoOf nd) [] of
                    Inl e' \<Rightarrow> ((False, Some e'), h')
                  | Inr header \<Rightarrow>
                      (case endHeaderCommon h'
                              (header\<lparr>Typeflag := TypeDir, Name := Name header @ ''/''\<rparr>) of
                         (e'', h'') \<Rightarrow> ((True, e''), h'')))))"

text \<open>
  The helper as \<open>bindMouseHostFileToTar\<close> makes it, and the function itself. The
  result is \<open>(isDir, err)\<close> and the writer after the call.
\<close>

definition newHelper :: "tarWriter \<Rightarrow> string \<Rightarrow> string \<Rightarrow> bindMountHostFileToTarHelper" where
  "newHelper w hostFile renameTo =
     \<lparr>t_tw = w, t_twMayBeCorrupt = False, t_renameTo = renameTo, t_rootHostFile = hostFile,
      t_rootHostFileVol = filepath_VolumeName hostFile,
      t_rootHostFileWithoutVol = drop (length (filepath_VolumeName hostFile)) hostFile\<rparr>"

definition bindMouseHostFileToTar ::
  "InMemoryFileSystem \<Rightarrow> tarWriter \<Rightarrow> string \<Rightarrow> string
     \<Rightarrow> (bool \<times> error option) \<times> tarWriter" where
  "bindMouseHostFileToTar vfs w hostFile renameTo =
     (case bindMount_run vfs (newHelper w hostFile renameTo) hostFile renameTo of
        ((isDir, None), h) \<Rightarrow> ((isDir, None), t_tw h)
      | ((isDir, Some e), h) \<Rightarrow>
          if t_twMayBeCorrupt h then ((False, Some e), t_tw h)
          else
            (case endHeaderCommon h
                    \<lparr>Name = renameTo @ ''/'', Typeflag = TypeDir, Linkname = [], Size = 0\<rparr> of
               (e', h') \<Rightarrow> ((True, e'), t_tw h')))"

section \<open>Notions of the specification\<close>

text \<open>
  The name components of a path, and the walk of a list of components from a node
  that stops at a missing component and at a symbolic link. A path has no symlink
  components when the walk of its components from the root gets through.
\<close>

definition nameComps :: "string \<Rightarrow> string list" where
  "nameComps p = filter (\<lambda>c. c \<noteq> []) (Split p CHR ''/'')"

fun walkTo :: "node \<Rightarrow> string list \<Rightarrow> node option" where
  "walkTo d [] = Some d"
| "walkTo d (c # cs) =
     (case dirLookup d c of
        None \<Rightarrow> None
      | Some ch \<Rightarrow> if mode ch AND ModeSymlink \<noteq> 0 then None else walkTo ch cs)"

definition noSymlinkComponents :: "InMemoryFileSystem \<Rightarrow> string \<Rightarrow> bool" where
  "noSymlinkComponents vfs r = (walkTo (root vfs) (nameComps r) \<noteq> None)"

text \<open>
  The invariant of the loop of \<open>EvalSymlinks\<close>, and the order in which its states
  descend: the links still allowed, then the length of the unconsumed name.
\<close>

definition walkInv :: "evalSymlinksHelper \<Rightarrow> bool" where
  "walkInv h = (walkTo (root (h_fs h)) (nameComps (h_resolved h)) = Some (h_n h))"


text \<open>
  For \<open>MkdirAll\<close>: every component of a path exists as a directory, from the node
  where the walk starts; and some component that exists on the way is not a
  directory. A child with a seeded error does not count as existing. The walk starts
  at the root for an absolute name and at the current directory otherwise.
\<close>

fun allDirs :: "node \<Rightarrow> string list \<Rightarrow> bool" where
  "allDirs d [] = IsDir (mode d)"
| "allDirs d (c # cs) =
     (IsDir (mode d) \<and>
      (case dirLookup d c of None \<Rightarrow> False | Some ch \<Rightarrow> err ch = None \<and> allDirs ch cs))"

fun hitsNonDir :: "node \<Rightarrow> string list \<Rightarrow> bool" where
  "hitsNonDir d [] = (\<not> IsDir (mode d))"
| "hitsNonDir d (c # cs) =
     (\<not> IsDir (mode d) \<or>
      (case dirLookup d c of None \<Rightarrow> False | Some ch \<Rightarrow> err ch = None \<and> hitsNonDir ch cs))"

definition walkStart :: "InMemoryFileSystem \<Rightarrow> string \<Rightarrow> node option" where
  "walkStart vfs nm =
     (if nm \<noteq> [] \<and> hd nm = CHR ''/'' then Some (root vfs)
      else (case findLoop (root vfs) [] (cwd vfs) of
              (ref, d, rem, None) \<Rightarrow> Some d
            | (ref, d, rem, Some e) \<Rightarrow> None))"

text \<open>
  Containment as the specification words it: the path of the target is equal to the
  path of the root or nested under it component by component.
\<close>

definition componentwiseUnder :: "string \<Rightarrow> string \<Rightarrow> bool" where
  "componentwiseUnder rootPath targetPath =
     prefix (Split rootPath Separator) (Split targetPath Separator)"

text \<open>
  A helper whose writer has no fault left in its script and has not been marked
  possibly-corrupt.
\<close>

definition soundWriter :: "bindMountHostFileToTarHelper \<Rightarrow> bool" where
  "soundWriter h = (faults (t_tw h) = [] \<and> \<not> t_twMayBeCorrupt h)"

section \<open>File systems and writers of the scenarios\<close>

text \<open>
  The file system that the tests of package \<open>up\<close> build: \<open>/orig\<close> with content,
  \<open>/origerr\<close> with a seeded error, \<open>/dir\<close> with two files, \<open>/dir2\<close> with a file
  and a link to it, \<open>/dir3\<close> with a link to \<open>/dir2\<close>. The current directory is the
  root.
\<close>

definition regularNode :: "string \<Rightarrow> string \<Rightarrow> node" where
  "regularNode nm content = Node nm 0x1B6 None content []"

definition dirNode :: "string \<Rightarrow> node list \<Rightarrow> node" where
  "dirNode nm nodes = Node nm (ModeDir OR 0x1FF) None [] nodes"

definition symlinkNode :: "string \<Rightarrow> string \<Rightarrow> node" where
  "symlinkNode nm target = Node nm ModeSymlink None target []"

definition errTest :: error where
  "errTest = ErrOther ''test error''"

definition testFS :: InMemoryFileSystem where
  "testFS =
     \<lparr>root = dirNode []
        [regularNode ''orig'' ''content'',
         Node ''origerr'' 0x1B6 (Some errTest) [] [],
         dirNode ''dir'' [regularNode ''file1'' ''content'', regularNode ''file2'' ''content''],
         dirNode ''dir2'' [regularNode ''file'' ''content'', symlinkNode ''symlink'' ''file''],
         dirNode ''dir3'' [symlinkNode ''symlink'' ''/dir2'']],
      cwd = ''/'', AbsError = None\<rparr>"

text \<open>The empty file system, and the same after \<open>/dir1/dir1_1\<close> has been made.\<close>

definition emptyFS :: InMemoryFileSystem where
  "emptyFS = \<lparr>root = dirNode [] [], cwd = ''/'', AbsError = None\<rparr>"





text \<open>
  A file system whose current directory is \<open>/home\<close>, with a directory \<open>/home/a\<close>
  and a link \<open>/a\<close>.
\<close>

definition homeFS :: InMemoryFileSystem where
  "homeFS = \<lparr>root = dirNode [] [dirNode ''home'' [dirNode ''a'' []], symlinkNode ''a'' ''/home''],
             cwd = ''/home'', AbsError = None\<rparr>"

text \<open>A writer that never fails, and one whose next call fails.\<close>

definition emptyWriter :: tarWriter where
  "emptyWriter = \<lparr>entries = [], faults = []\<rparr>"

definition closedWriter :: tarWriter where
  "closedWriter = \<lparr>entries = [], faults = [Some (ErrOther ''archive/tar: write after close'')]\<rparr>"

section \<open>Theorems\<close>

subsection \<open>Helper lemmas\<close>

lemma copyLoop_closed:
  "0 < i \<Longrightarrow> copyLoop ds i b =
     b @ concat (map (\<lambda>k. specCopyLine k (ds ! (k - 1))) [i..<Suc (length ds)])"
proof (induction ds i b rule: copyLoop.induct)
  case (1 ds i b)
  show ?case
  proof (cases "i \<le> length ds")
    case True
    then have "[i..<Suc (length ds)] = i # [Suc i..<Suc (length ds)]"
      by (simp add: upt_conv_Cons)
    with True 1 show ?thesis
      by (subst copyLoop.simps) (simp add: specCopyLine_def)
  next
    case False
    then show ?thesis by (subst copyLoop.simps) simp
  qed
qed

lemma Join_Cons: "ys \<noteq> [] \<Longrightarrow> Join (x # ys) sep = x @ sep @ Join ys sep"
  by (cases ys) simp_all

lemma cpLoop_closed_first:
  "1 < i \<Longrightarrow> cpLoop ds i b =
     b @ concat (map (\<lambda>k. '' && '' @ specCpCommand k) [i..<Suc (length ds)])"
proof (induction ds i b rule: cpLoop.induct)
  case (1 ds i b)
  show ?case
  proof (cases "i \<le> length ds")
    case True
    then have "[i..<Suc (length ds)] = i # [Suc i..<Suc (length ds)]"
      by (simp add: upt_conv_Cons)
    with True 1 show ?thesis
      by (subst cpLoop.simps) (simp add: specCpCommand_def)
  next
    case False
    then show ?thesis by (subst cpLoop.simps) simp
  qed
qed

lemma Join_concat:
  "Join (map f (i # ks)) sep = f i @ concat (map (\<lambda>k. sep @ f k) ks)"
  by (induction ks arbitrary: i) (simp_all add: Join_Cons)

lemma cpLoop_closed:
  "cpLoop ds (Suc 0) b = b @ Join (map specCpCommand [Suc 0..<Suc (length ds)]) '' && ''"
proof (cases "Suc 0 \<le> length ds")
  case True
  then have u: "[Suc 0..<Suc (length ds)] = Suc 0 # [Suc (Suc 0)..<Suc (length ds)]"
    by (simp add: upt_conv_Cons)
  have "cpLoop ds (Suc 0) b = cpLoop ds (Suc (Suc 0)) (b @ specCpCommand (Suc 0))"
    using True by (subst cpLoop.simps) (simp add: specCpCommand_def)
  also have "\<dots> = (b @ specCpCommand (Suc 0))
       @ concat (map (\<lambda>k. '' && '' @ specCpCommand k) [Suc (Suc 0)..<Suc (length ds)])"
    by (rule cpLoop_closed_first) simp
  finally show ?thesis
    by (simp only: u Join_concat append_assoc)
next
  case False
  then show ?thesis by (subst cpLoop.simps) simp
qed

lemma repoDigestsLoop_mem: "repoDigestsLoop rd ds = (rd \<in> set ds)"
  by (induction ds) auto

lemma imageSummariesLoop_find:
  "imageSummariesLoop rd sums =
     (case List.find (\<lambda>s. rd \<in> set (RepoDigests s)) sums of
        None \<Rightarrow> ('''', '''', None)
      | Some s \<Rightarrow> (ID s, rd, None))"
  by (induction sums) (simp_all add: repoDigestsLoop_mem)

subsection \<open>The Dockerfile\<close>

text \<open>
  Claim C5. \<open>buildVolumeInitImageGetDockerfile [true, false]\<close> returns exactly the
  bytes of the scenario (two \<open>COPY\<close> lines, the first with slashes, and the two
  \<open>cp -r\<close> commands joined by \<open>" && "\<close>); and for every \<open>isDirSlice\<close> the result is
  the head, the \<open>COPY\<close> lines in index order, line \<open>i\<close> with a slash after source and
  destination exactly when entry \<open>i\<close> is a directory, and the \<open>ENTRYPOINT\<close> line with
  the \<open>cp\<close> commands joined by \<open>" && "\<close> in index order.
\<close>

theorem buildVolumeInitImageGetDockerfile_text:
  \<open>buildVolumeInitImageGetDockerfile [True, False] =
     ''ARG BASE_IMAGE\<newline>FROM ${BASE_IMAGE}\<newline>COPY data1/ /app/data/vol1/\<newline>COPY data2 /app/data/vol2\<newline>ENTRYPOINT ["bash", "-c", "cp -r /app/data/vol1 /mnt/vol1/root && cp -r /app/data/vol2 /mnt/vol2/root"]\<newline>''
   \<and> buildVolumeInitImageGetDockerfile ds = specDockerfile ds\<close>
proof
  have g: "buildVolumeInitImageGetDockerfile ds = specDockerfile ds" for ds :: "bool list"
  proof -
    have c: "copyLoop ds 1 b = b @ concat (map (\<lambda>k. specCopyLine k (ds ! (k - 1))) [1..<Suc (length ds)])" for b
      by (rule copyLoop_closed) simp
    have p: "cpLoop ds 1 b = b @ Join (map specCpCommand [1..<Suc (length ds)]) '' && ''" for b
      using cpLoop_closed [of ds b] by simp
    show ?thesis
      unfolding buildVolumeInitImageGetDockerfile_def specDockerfile_def Let_def
      by (simp only: c p append_assoc)
  qed
  show \<open>buildVolumeInitImageGetDockerfile [True, False] =
     ''ARG BASE_IMAGE\<newline>FROM ${BASE_IMAGE}\<newline>COPY data1/ /app/data/vol1/\<newline>COPY data2 /app/data/vol2\<newline>ENTRYPOINT ["bash", "-c", "cp -r /app/data/vol1 /mnt/vol1/root && cp -r /app/data/vol2 /mnt/vol2/root"]\<newline>''\<close>
    by code_simp
  show "buildVolumeInitImageGetDockerfile ds = specDockerfile ds"
    by (rule g)
qed

subsection \<open>Resolving a pulled image\<close>

text \<open>
  Claim C10. When the image-list query succeeds, the error result of
  \<open>ResolveLocalImageAfterPull\<close> is nil whether or not an image is found: if no listed
  image carries the repo digest \<open>familiarName + "@" + digest\<close> the result is
  \<open>("", "", nil)\<close>; otherwise the result is the ID of the first listed image that
  carries it, that repo digest, and nil.
\<close>

theorem ResolveLocalImageAfterPull_found_or_empty:
  assumes "imageList = Inr imageSummaries"
  shows "ResolveLocalImageAfterPull imageList familiarName digest =
     (case List.find (\<lambda>s. familiarName @ ''@'' @ digest \<in> set (RepoDigests s)) imageSummaries of
        None \<Rightarrow> ('''', '''', None)
      | Some s \<Rightarrow> (ID s, familiarName @ ''@'' @ digest, None))"
  unfolding ResolveLocalImageAfterPull_def using assms
  by (simp only: imageSummariesLoop_find sum.case)

theorem ResolveLocalImageAfterPull_found_or_empty_witness:
  "ResolveLocalImageAfterPull
     (Inr [\<lparr>ID = ''sha256:aa'', RepoDigests = [''ubuntu@sha256:01'']\<rparr>,
           \<lparr>ID = ''sha256:bb'', RepoDigests = [''busybox@sha256:02'', ''ubuntu@sha256:03'']\<rparr>,
           \<lparr>ID = ''sha256:cc'', RepoDigests = [''ubuntu@sha256:03'']\<rparr>])
     ''ubuntu'' ''sha256:03''
   = (''sha256:bb'', ''ubuntu@sha256:03'', None)
   \<and> ResolveLocalImageAfterPull
     (Inr [\<lparr>ID = ''sha256:aa'', RepoDigests = [''ubuntu@sha256:01'']\<rparr>])
     ''ubuntu'' ''sha256:03''
   = ('''', '''', None)"
  using ResolveLocalImageAfterPull_found_or_empty
      [of "Inr [\<lparr>ID = ''sha256:aa'', RepoDigests = [''ubuntu@sha256:01'']\<rparr>,
           \<lparr>ID = ''sha256:bb'', RepoDigests = [''busybox@sha256:02'', ''ubuntu@sha256:03'']\<rparr>,
           \<lparr>ID = ''sha256:cc'', RepoDigests = [''ubuntu@sha256:03'']\<rparr>]" _ "''ubuntu''" "''sha256:03''"]
    ResolveLocalImageAfterPull_found_or_empty
      [of "Inr [\<lparr>ID = ''sha256:aa'', RepoDigests = [''ubuntu@sha256:01'']\<rparr>]" _ "''ubuntu''" "''sha256:03''"]
  by simp

subsection \<open>The image identifier in the build output\<close>

lemma find_append_split:
  "List.find P (xs @ ys) = (case List.find P xs of None \<Rightarrow> List.find P ys | Some x \<Rightarrow> Some x)"
  by (induction xs) simp_all

lemma digestFindFrom_bounds:
  "digestFindFrom k s = Some loc \<Longrightarrow> fst loc + 71 \<le> k + length s \<and> k \<le> fst loc"
proof (induction s arbitrary: k)
  case Nil
  then show ?case by simp
next
  case (Cons c cs)
  show ?case
  proof (cases "digestMatchesAt (c # cs)")
    case True
    with Cons.prems show ?thesis
      by (auto simp: digestMatchesAt_def Sha256BitLength_def Sha256Prefix_def)
  next
    case False
    with Cons.prems have "digestFindFrom (k + 1) cs = Some loc" by simp
    from Cons.IH [OF this] show ?thesis by simp
  qed
qed

lemma digestFindStringIndex_bounds:
  "digestFindStringIndex s = Some loc \<Longrightarrow> fst loc + 71 \<le> length s"
  using digestFindFrom_bounds [of 0 s loc] by (simp add: digestFindStringIndex_def)

lemma decodeLoop_all_decoded:
  assumes "\<And>s loc. F s = Some loc \<Longrightarrow> fst loc + 71 \<le> length s"
  shows "decodeLoop F (map Decoded streams) acc =
     Inr (case lastMatch F streams of None \<Rightarrow> acc | Some m \<Rightarrow> m)"
proof (induction streams arbitrary: acc)
  case Nil
  then show ?case by (simp add: lastMatch_def specFirstMatch_def)
next
  case (Cons s streams)
  show ?case
  proof (cases "F s")
    case None
    then show ?thesis
      by (simp add: Cons.IH lastMatch_def specFirstMatch_def find_append_split
          split: option.split)
  next
    case (Some loc)
    with assms have "fst loc + 71 \<le> length s" by simp
    with Some show ?thesis
      by (simp add: Cons.IH lastMatch_def specFirstMatch_def find_append_split
          Sha256BitLength_def Sha256Prefix_def split: option.split)
  qed
qed

lemma find_Some_holds: "List.find P xs = Some x \<Longrightarrow> P x"
  by (induction xs) (auto split: if_splits)

lemma lastMatch_nonempty:
  assumes "\<And>s loc. F s = Some loc \<Longrightarrow> fst loc + 71 \<le> length s"
    and "lastMatch F streams = Some m"
  shows "m \<noteq> []"
proof -
  from assms(2) obtain s where f: "List.find (\<lambda>s. F s \<noteq> None) (rev streams) = Some s"
    and m: "m = take 71 (drop (fst (the (F s))) s)"
    by (auto simp: lastMatch_def specFirstMatch_def Sha256BitLength_def Sha256Prefix_def
        split: option.splits)
  from find_Some_holds [OF f] obtain loc where l: "F s = Some loc" by auto
  from assms(1) [OF l] l m show ?thesis by auto
qed

text \<open>
  Claim C1, as the code has it. The loop does not stop at a match: every later
  message with a match replaces the identifier. For a response whose body decodes
  message by message up to end-of-stream, and a digest matcher whose matches are the
  71 bytes of \<open>sha256:\<close> and 64 hexadecimal characters, \<open>buildVolumeInitImage\<close>
  returns the leftmost match of the last message that has a match, and fails with the
  could-not-parse-image-id error exactly when no message has a match.
\<close>

theorem buildVolumeInitImage_last_match:
  assumes "\<And>s loc. FindStringIndex s = Some loc \<Longrightarrow> fst loc + 71 \<le> length s"
  shows "buildVolumeInitImage FindStringIndex (Inr ds) (Inr (map Decoded streams)) =
     (case lastMatch FindStringIndex streams of
        None \<Rightarrow> Inl ErrNoImageID
      | Some m \<Rightarrow> Inr \<lparr>isDirSlice = ds, imageID = m\<rparr>)"
proof (cases "lastMatch FindStringIndex streams")
  case None
  then show ?thesis
    by (simp add: buildVolumeInitImage_def decodeLoop_all_decoded [OF assms])
next
  case (Some m)
  with lastMatch_nonempty [OF assms] have "m \<noteq> []" by blast
  with Some show ?thesis
    by (simp add: buildVolumeInitImage_def decodeLoop_all_decoded [OF assms])
qed

theorem buildVolumeInitImage_last_match_witness:
  "buildVolumeInitImage digestFindStringIndex (Inr [True])
     (Inr (map Decoded
        [''Step 1/3'',
         ''sha256:0123456789abcdef0123456789abcdef0123456789abcdef0123456789abcdef\<newline>'',
         ''done'']))
   = Inr \<lparr>isDirSlice = [True],
          imageID = ''sha256:0123456789abcdef0123456789abcdef0123456789abcdef0123456789abcdef''\<rparr>
   \<and> buildVolumeInitImage digestFindStringIndex (Inr [True])
     (Inr (map Decoded [''Step 1/3'', ''done''])) = Inl ErrNoImageID"
proof -
  have l1: "lastMatch digestFindStringIndex
        [''Step 1/3'',
         ''sha256:0123456789abcdef0123456789abcdef0123456789abcdef0123456789abcdef\<newline>'',
         ''done'']
      = Some ''sha256:0123456789abcdef0123456789abcdef0123456789abcdef0123456789abcdef''"
    by code_simp
  have l2: "lastMatch digestFindStringIndex [''Step 1/3'', ''done''] = None"
    by code_simp
  show ?thesis
    using buildVolumeInitImage_last_match [of digestFindStringIndex "[True]"
        "[''Step 1/3'',
         ''sha256:0123456789abcdef0123456789abcdef0123456789abcdef0123456789abcdef\<newline>'',
         ''done'']", OF digestFindStringIndex_bounds]
      buildVolumeInitImage_last_match [of digestFindStringIndex "[True]"
        "[''Step 1/3'', ''done'']", OF digestFindStringIndex_bounds]
    by (simp only: l1 l2 option.case)
qed

text \<open>
  The claim as stated fails when two messages carry a digest: the identifier returned
  is the one of the second message, not the first match of the stream.
\<close>

theorem buildVolumeInitImage_first_match_counterexample:
  "buildVolumeInitImage digestFindStringIndex (Inr [])
     (Inr [Decoded ''sha256:1111111111111111111111111111111111111111111111111111111111111111'',
           Decoded ''sha256:2222222222222222222222222222222222222222222222222222222222222222''])
   = Inr \<lparr>isDirSlice = [],
          imageID = ''sha256:2222222222222222222222222222222222222222222222222222222222222222''\<rparr>
   \<and> specFirstMatch digestFindStringIndex
       [''sha256:1111111111111111111111111111111111111111111111111111111111111111'',
        ''sha256:2222222222222222222222222222222222222222222222222222222222222222'']
     = Some ''sha256:1111111111111111111111111111111111111111111111111111111111111111''"
  by code_simp

subsection \<open>Lemmas on the in-memory file system\<close>








lemma Split_not_Nil: "Split xs c \<noteq> []"
  by (induction xs) (auto split: list.splits)

lemma Split_append_sep: "Split (xs @ c # ys) c = Split xs c @ Split ys c"
  using Split_not_Nil by (induction xs) (auto split: list.splits)

lemma Split_no_sep: "c \<notin> set xs \<Longrightarrow> Split xs c = [xs]"
  by (induction xs) (auto split: list.splits)

lemma nameComps_snoc:
  "c \<noteq> [] \<Longrightarrow> CHR ''/'' \<notin> set c \<Longrightarrow> nameComps (r @ ''/'' @ c) = nameComps r @ [c]"
  by (simp add: nameComps_def Split_append_sep Split_no_sep)

lemma walkTo_snoc:
  "walkTo d (cs @ [c]) = (case walkTo d cs of None \<Rightarrow> None | Some m \<Rightarrow> walkTo m [c])"
  by (induction cs arbitrary: d) (auto split: option.splits)

lemma updateNameRem_walkInv: "walkInv (updateNameRemFromSlashPos h slashPos) = walkInv h"
  by (simp add: walkInv_def updateNameRemFromSlashPos_def)

lemma updateNameRem_n: "h_n (updateNameRemFromSlashPos h slashPos) = h_n h"
  by (simp add: updateNameRemFromSlashPos_def)

lemma updateFromChildN_walkInv:
  assumes "walkInv h" and "dirLookup (h_n h) nameComp = Some childN"
    and "validateNameComp nameComp"
    and "updateFromChildN h childN nameComp = (None, h')"
  shows "walkInv h'"
proof (cases "mode childN AND ModeSymlink \<noteq> 0")
  case True
  with assms(1,4) show ?thesis
    by (auto simp: updateFromChildN_def Let_def walkInv_def nameComps_def split: if_splits)
next
  case False
  with assms(4) have h': "h' = h\<lparr>h_resolved := h_resolved h @ ''/'' @ nameComp, h_n := childN\<rparr>"
    by (simp add: updateFromChildN_def)
  from assms(3) have "nameComp \<noteq> []" "CHR ''/'' \<notin> set nameComp"
    by (simp_all add: validateNameComp_def)
  then have "nameComps (h_resolved h @ ''/'' @ nameComp) = nameComps (h_resolved h) @ [nameComp]"
    by (rule nameComps_snoc)
  with assms(1,2) False show ?thesis
    by (simp add: h' walkInv_def walkTo_snoc)
qed

lemma run_walkInv:
  assumes "run h = Some r"
  shows "walkInv h \<longrightarrow> fst r = None \<longrightarrow> walkInv (snd r)"
  apply (rule run.raw_induct [where P = "\<lambda>h r. walkInv h \<longrightarrow> fst r = None \<longrightarrow> walkInv (snd r)", OF _ assms])
  subgoal premises prems for f h r
  proof (intro impI)
    assume inv: "walkInv h" and ok: "fst r = None"
    note IH = prems(1) and eq = prems(2)
    show "walkInv (snd r)"
    proof (cases "h_nameRem h = []")
      case True
      with eq inv show ?thesis by auto
    next
      case ne: False
      define slashPos where "slashPos = IndexByte (h_nameRem h) CHR ''/''"
      define nameComp where "nameComp = getNameComp h slashPos"
      define h1 where "h1 = updateNameRemFromSlashPos h slashPos"
      have i1: "walkInv h1" using inv by (simp add: h1_def updateNameRem_walkInv)
      have n1: "h_n h1 = h_n h" by (simp add: h1_def updateNameRem_n)
      show ?thesis
      proof (cases "nameComp = []")
        case True
        with eq ne have "f h1 = Some r"
          by (simp add: Let_def slashPos_def [symmetric] nameComp_def [symmetric] h1_def [symmetric])
        from IH [OF this] i1 ok show ?thesis by simp
      next
        case nc: False
        show ?thesis
        proof (cases "validateNameComp nameComp \<and> mode (h_n h) AND ModeDir \<noteq> 0
            \<and> (\<exists>childN. dirLookup (h_n h) nameComp = Some childN \<and> err childN = None)")
          case False
          with eq ne nc have "fst r \<noteq> None"
            by (auto simp: Let_def slashPos_def [symmetric] nameComp_def [symmetric]
                split: option.splits if_splits)
          with ok show ?thesis by simp
        next
          case True
          then obtain childN where v: "validateNameComp nameComp"
            and d: "mode (h_n h) AND ModeDir \<noteq> 0"
            and c: "dirLookup (h_n h) nameComp = Some childN" and ce: "err childN = None"
            by auto
          obtain e2 h2 where u: "updateFromChildN h1 childN nameComp = (e2, h2)"
            by (cases "updateFromChildN h1 childN nameComp")
          show ?thesis
          proof (cases e2)
            case (Some e)
            with eq ne nc v d c ce u have "r = (Some e, h2)"
              by (simp add: Let_def slashPos_def [symmetric] nameComp_def [symmetric]
                  h1_def [symmetric])
            with ok show ?thesis by simp
          next
            case None
            with eq ne nc v d c ce u have f: "f h2 = Some r"
              by (simp add: Let_def slashPos_def [symmetric] nameComp_def [symmetric]
                  h1_def [symmetric])
            from c n1 have "dirLookup (h_n h1) nameComp = Some childN" by simp
            from updateFromChildN_walkInv [OF i1 this v] u None have "walkInv h2" by simp
            with IH [OF f] ok show ?thesis by simp
          qed
        qed
      qed
    qed
  qed
  done

lemma updateFromChildN_fs: "h_fs (snd (updateFromChildN h childN nameComp)) = h_fs h"
  by (simp add: updateFromChildN_def Let_def)

lemma run_fs:
  assumes "run h = Some r"
  shows "h_fs (snd r) = h_fs h"
  apply (rule run.raw_induct [where P = "\<lambda>h r. h_fs (snd r) = h_fs h", OF _ assms])
  subgoal premises prems for f h r
  proof -
    note IH = prems(1) and eq = prems(2)
    show ?thesis
    proof (cases "h_nameRem h = []")
      case True
      with eq show ?thesis by auto
    next
      case ne: False
      define slashPos where "slashPos = IndexByte (h_nameRem h) CHR ''/''"
      define nameComp where "nameComp = getNameComp h slashPos"
      define h1 where "h1 = updateNameRemFromSlashPos h slashPos"
      have f1: "h_fs h1 = h_fs h" by (simp add: h1_def updateNameRemFromSlashPos_def)
      show ?thesis
      proof (cases "nameComp = []")
        case True
        with eq ne have "f h1 = Some r"
          by (simp add: Let_def slashPos_def [symmetric] nameComp_def [symmetric] h1_def [symmetric])
        from IH [OF this] f1 show ?thesis by simp
      next
        case nc: False
        show ?thesis
        proof (cases "validateNameComp nameComp \<and> mode (h_n h) AND ModeDir \<noteq> 0
            \<and> (\<exists>childN. dirLookup (h_n h) nameComp = Some childN \<and> err childN = None)")
          case False
          with eq ne nc have "snd r = h"
            by (auto simp: Let_def slashPos_def [symmetric] nameComp_def [symmetric]
                split: option.splits if_splits)
          then show ?thesis by simp
        next
          case True
          then obtain childN where v: "validateNameComp nameComp"
            and d: "mode (h_n h) AND ModeDir \<noteq> 0"
            and c: "dirLookup (h_n h) nameComp = Some childN" and ce: "err childN = None"
            by auto
          obtain e2 h2 where u: "updateFromChildN h1 childN nameComp = (e2, h2)"
            by (cases "updateFromChildN h1 childN nameComp")
          from u updateFromChildN_fs [of h1 childN nameComp] f1 have f2: "h_fs h2 = h_fs h"
            by simp
          show ?thesis
          proof (cases e2)
            case (Some e)
            with eq ne nc v d c ce u have "r = (Some e, h2)"
              by (simp add: Let_def slashPos_def [symmetric] nameComp_def [symmetric]
                  h1_def [symmetric])
            with f2 show ?thesis by simp
          next
            case None
            with eq ne nc v d c ce u have f: "f h2 = Some r"
              by (simp add: Let_def slashPos_def [symmetric] nameComp_def [symmetric]
                  h1_def [symmetric])
            from IH [OF f] f2 show ?thesis by simp
          qed
        qed
      qed
    qed
  qed
  done

lemma findLoop_Nil: "findLoop d ref [] = (ref, d, [], None)"
  by (subst findLoop.simps) simp

lemma IndexByte_neg_iff: "IndexByte s c < 0 \<longleftrightarrow> c \<notin> set s"
  by (induction s) (auto simp: Let_def)

lemma Split_IndexByte:
  "Split s c = (if IndexByte s c < 0 then [s]
                else take (nat (IndexByte s c)) s # Split (drop (nat (IndexByte s c + 1)) s) c)"
proof (induction s)
  case Nil
  then show ?case by simp
next
  case (Cons x xs)
  show ?case
  proof (cases "x = c")
    case True
    then show ?thesis by simp
  next
    case False
    show ?thesis
    proof (cases "IndexByte xs c < 0")
      case True
      with False Cons show ?thesis by (simp add: Let_def)
    next
      case nn: False
      then have "nat (IndexByte xs c + 1) = Suc (nat (IndexByte xs c))"
        "nat (IndexByte xs c + 1 + 1) = Suc (Suc (nat (IndexByte xs c)))" by simp_all
      with False nn Cons show ?thesis by (simp add: Let_def)
    qed
  qed
qed

lemma nameComps_step:
  assumes "s \<noteq> []"
  shows "nameComps s =
     (let slashPos = IndexByte s CHR ''/'';
          nameComp = (if slashPos < 0 then s else take (nat slashPos) s);
          rest = (if slashPos < 0 then [] else drop (nat (slashPos + 1)) s)
      in (if nameComp = [] then [] else [nameComp]) @ nameComps rest)"
  using assms
  by (subst nameComps_def, subst Split_IndexByte) (simp add: Let_def nameComps_def)

lemma dirLookupIndex_None: "dirLookupIndex d c = None \<longleftrightarrow> dirLookup d c = None"
proof -
  have "dirLookupIndex d c = None
      \<longleftrightarrow> List.find (\<lambda>i. name (extraNodes d ! i) = c) [0..<length (extraNodes d)] = None"
    by (simp add: dirLookupIndex_def)
  also have "\<dots> \<longleftrightarrow> (\<forall>i<length (extraNodes d). name (extraNodes d ! i) \<noteq> c)"
    by (auto simp: find_None_iff)
  also have "\<dots> \<longleftrightarrow> (\<forall>x\<in>set (extraNodes d). name x \<noteq> c)"
    by (simp add: all_set_conv_all_nth)
  also have "\<dots> \<longleftrightarrow> dirLookup d c = None"
    by (auto simp: dirLookup_def find_None_iff)
  finally show ?thesis .
qed

lemma dirLookupIndex_Some:
  assumes "dirLookupIndex d c = Some i"
  shows "dirLookup d c = Some (extraNodes d ! i)"
proof -
  from assms have f: "List.find (\<lambda>i. name (extraNodes d ! i) = c) [0..<length (extraNodes d)] = Some i"
    by (simp add: dirLookupIndex_def)
  then have "i < length (extraNodes d)" "name (extraNodes d ! i) = c"
    "\<forall>j<i. name (extraNodes d ! j) \<noteq> c"
    by (auto simp: find_Some_iff)
  then show ?thesis
    by (auto simp: dirLookup_def find_Some_iff intro!: exI [of _ i])
qed

lemma findLoop_allDirs:
  "allDirs d (nameComps s) \<Longrightarrow>
     \<exists>ref' d'. findLoop d ref s = (ref', d', [], None) \<and> IsDir (mode d')"
proof (induction d ref s rule: findLoop.induct)
  case (1 d ref s)
  show ?case
  proof (cases "s = []")
    case True
    with 1(3) show ?thesis
      by (subst findLoop.simps) (simp add: nameComps_def)
  next
    case ne: False
    define slashPos where "slashPos = IndexByte s CHR ''/''"
    define nameComp where "nameComp = (if slashPos < 0 then s else take (nat slashPos) s)"
    define rest where "rest = (if slashPos < 0 then [] else drop (nat (slashPos + 1)) s)"
    from nameComps_step [OF ne]
    have nc: "nameComps s = (if nameComp = [] then [] else [nameComp]) @ nameComps rest"
      by (simp add: Let_def slashPos_def nameComp_def rest_def)
    show ?thesis
    proof (cases "nameComp = []")
      case True
      with nc 1(3) have "allDirs d (nameComps rest)" by simp
      from 1(1) [OF ne slashPos_def nameComp_def rest_def True this]
      obtain ref' d' where "findLoop d ref rest = (ref', d', [], None)" "IsDir (mode d')"
        by auto
      with ne True show ?thesis
        by (subst findLoop.simps)
          (simp add: Let_def slashPos_def [symmetric] nameComp_def [symmetric] rest_def [symmetric])
    next
      case False
      with nc 1(3) obtain ch where dd: "IsDir (mode d)" and l: "dirLookup d nameComp = Some ch"
        and ce: "err ch = None" and a: "allDirs ch (nameComps rest)"
        by (auto split: option.splits)
      from l obtain i where li: "dirLookupIndex d nameComp = Some i"
        using dirLookupIndex_None [of d nameComp] by (cases "dirLookupIndex d nameComp") auto
      from dirLookupIndex_Some [OF li] l have ch: "extraNodes d ! i = ch" by simp
      from dd have md: "mode d AND ModeDir \<noteq> 0" by (simp add: IsDir_def)
      from 1(2) [OF ne slashPos_def nameComp_def rest_def False _ li] md ce ch a
      obtain ref' d' where "findLoop ch (ref @ [i]) rest = (ref', d', [], None)" "IsDir (mode d')"
        by auto
      with ne False md li ch ce show ?thesis
        by (subst findLoop.simps)
          (simp add: Let_def slashPos_def [symmetric] nameComp_def [symmetric] rest_def [symmetric])
    qed
  qed
qed

lemma findLoop_hitsNonDir:
  "hitsNonDir d (nameComps s) \<Longrightarrow>
     \<exists>ref' d' rem e. findLoop d ref s = (ref', d', rem, e) \<and> \<not> IsDir (mode d')
        \<and> (e = None \<or> e = Some ENOTDIR)"
proof (induction d ref s rule: findLoop.induct)
  case (1 d ref s)
  show ?case
  proof (cases "s = []")
    case True
    with 1(3) show ?thesis
      by (subst findLoop.simps) (simp add: nameComps_def)
  next
    case ne: False
    define slashPos where "slashPos = IndexByte s CHR ''/''"
    define nameComp where "nameComp = (if slashPos < 0 then s else take (nat slashPos) s)"
    define rest where "rest = (if slashPos < 0 then [] else drop (nat (slashPos + 1)) s)"
    from nameComps_step [OF ne]
    have nc: "nameComps s = (if nameComp = [] then [] else [nameComp]) @ nameComps rest"
      by (simp add: Let_def slashPos_def nameComp_def rest_def)
    show ?thesis
    proof (cases "nameComp = []")
      case True
      with nc 1(3) have "hitsNonDir d (nameComps rest)" by simp
      from 1(1) [OF ne slashPos_def nameComp_def rest_def True this]
      obtain ref' d' rem e where "findLoop d ref rest = (ref', d', rem, e)" "\<not> IsDir (mode d')"
        "e = None \<or> e = Some ENOTDIR"
        by auto
      with ne True show ?thesis
        by (subst findLoop.simps)
          (simp add: Let_def slashPos_def [symmetric] nameComp_def [symmetric] rest_def [symmetric])
    next
      case False
      show ?thesis
      proof (cases "IsDir (mode d)")
        case nd: False
        then have "mode d AND ModeDir = 0" by (simp add: IsDir_def)
        with ne False nd show ?thesis
          by (subst findLoop.simps)
            (simp add: Let_def slashPos_def [symmetric] nameComp_def [symmetric] rest_def [symmetric])
      next
        case dd: True
        with False nc 1(3) obtain ch where l: "dirLookup d nameComp = Some ch"
          and ce: "err ch = None" and a: "hitsNonDir ch (nameComps rest)"
          by (auto split: option.splits)
        from l obtain i where li: "dirLookupIndex d nameComp = Some i"
          using dirLookupIndex_None [of d nameComp] by (cases "dirLookupIndex d nameComp") auto
        from dirLookupIndex_Some [OF li] l have ch: "extraNodes d ! i = ch" by simp
        from dd have md: "mode d AND ModeDir \<noteq> 0" by (simp add: IsDir_def)
        from 1(2) [OF ne slashPos_def nameComp_def rest_def False _ li] md ce ch a
        obtain ref' d' rem e where "findLoop ch (ref @ [i]) rest = (ref', d', rem, e)"
          "\<not> IsDir (mode d')" "e = None \<or> e = Some ENOTDIR"
          by auto
        with ne False md li ch ce show ?thesis
          by (subst findLoop.simps)
            (simp add: Let_def slashPos_def [symmetric] nameComp_def [symmetric] rest_def [symmetric])
      qed
    qed
  qed
qed

lemma nameComps_tl: "nm \<noteq> [] \<Longrightarrow> hd nm = CHR ''/'' \<Longrightarrow> nameComps (tl nm) = nameComps nm"
  by (cases nm) (simp_all add: nameComps_def)

lemma find_node_walkStart:
  assumes "walkStart vfs nm = Some d0"
  shows "\<exists>ref0. find_node vfs nm = findLoop d0 ref0 (if nm \<noteq> [] \<and> hd nm = CHR ''/'' then tl nm else nm)"
  using assms
  by (auto simp: walkStart_def find_node_def split: if_splits prod.splits option.splits)

lemma mkdirCommonAll_Nil: "mkdirCommonAll rt ref [] perm = (None, rt)"
  by (subst mkdirCommonAll.simps) simp

subsection \<open>EvalSymlinks, MkdirAll and the resolver\<close>

text \<open>
  Each substitution of a link: the counter goes up by one, the target, without its
  leading slash when it has one, is put before what is left of the name, and a
  target with a leading slash sets the walk back to the root.
\<close>

lemma updateFromChildN_substitution:
  assumes "mode childN AND ModeSymlink \<noteq> 0" and "h_links h < 255"
  shows "updateFromChildN h childN nameComp =
     (None,
      (if extraBytes childN \<noteq> [] \<and> hd (extraBytes childN) = CHR ''/''
       then h\<lparr>h_links := h_links h + 1, h_resolved := ''/'', h_n := root (h_fs h),
              h_nameRem := tl (extraBytes childN)
                 @ (if h_nameRem h \<noteq> [] then ''/'' @ h_nameRem h else [])\<rparr>
       else h\<lparr>h_links := h_links h + 1,
              h_nameRem := extraBytes childN
                 @ (if h_nameRem h \<noteq> [] then ''/'' @ h_nameRem h else [])\<rparr>))"
  using assms
  by (cases "extraBytes childN") (simp_all add: updateFromChildN_def Let_def)



text \<open>
  Where the walk starts at the root, that is for an absolute path, and for a relative
  path when the current directory is the root, a path that \<open>EvalSymlinks\<close> returns
  without error has no symlink components.
\<close>

theorem EvalSymlinks_no_symlink_components_from_root:
  assumes "EvalSymlinks vfs p = Some (r, None)"
    and "(p \<noteq> [] \<and> p ! 0 = CHR ''/'') \<or> cwd vfs = ''/''"
  shows "noSymlinkComponents vfs r"
proof -
  from assms(1) obtain h0 h' where s: "evalSymlinksStart vfs p = Inr h0"
    and rn: "run h0 = Some (None, h')" and r: "r = h_resolved h'"
    by (auto simp: EvalSymlinks_def split: sum.splits option.splits)
  have f0: "h_fs h0 = vfs" and i0: "walkInv h0"
  proof -
    show "h_fs h0 = vfs" using s
      by (auto simp: evalSymlinksStart_def split: if_splits option.splits prod.splits)
    show "walkInv h0"
    proof (cases "p \<noteq> [] \<and> p ! 0 = CHR ''/''")
      case True
      with s show ?thesis
        by (auto simp: evalSymlinksStart_def walkInv_def nameComps_def split: option.splits)
    next
      case False
      with assms(2) have c: "cwd vfs = ''/''" by simp
      have "find_node vfs ''/'' = ([], root vfs, [], None)"
        by (simp add: find_node_def findLoop_Nil)
      with s False c show ?thesis
        by (auto simp: evalSymlinksStart_def walkInv_def nameComps_def)
    qed
  qed
  from run_walkInv [OF rn] i0 have "walkInv h'" by simp
  moreover from run_fs [OF rn] f0 have "h_fs h' = vfs" by simp
  ultimately show ?thesis by (simp add: noSymlinkComponents_def walkInv_def r)
qed

text \<open>
  Claim C7 fails for a relative path when the current directory is not the root. The
  walk starts at the current directory, but the resolved path starts empty, so the
  result names the components from the root. In \<open>homeFS\<close> the current directory is
  \<open>/home\<close>; \<open>EvalSymlinks("a")\<close> walks to the directory \<open>/home/a\<close> and returns
  \<open>/a\<close> with no error, and \<open>/a\<close> is a symbolic link.
\<close>

theorem EvalSymlinks_relative_from_cwd:
  "EvalSymlinks homeFS ''a'' = Some (''/a'', None) \<and> \<not> noSymlinkComponents homeFS ''/a''"
  by code_simp

text \<open>
  Claim C8, as the code has it. \<open>MkdirAll\<close> refuses, before it looks at the file
  system, every mode with a bit of \<open>os.ModeType\<close>; with another mode it returns nil
  and leaves the file system as it is when every component of the path exists as a
  directory, and fails with not-a-directory when a component that exists on the way
  is not a directory.
\<close>

theorem MkdirAll_cases:
  "(perm AND ModeType \<noteq> 0 \<longrightarrow> MkdirAll vfs nm perm = (Some errBadMode, vfs))
   \<and> (perm AND ModeType = 0 \<and> walkStart vfs nm = Some d0 \<and> allDirs d0 (nameComps nm)
        \<longrightarrow> MkdirAll vfs nm perm = (None, vfs))
   \<and> (perm AND ModeType = 0 \<and> walkStart vfs nm = Some d0 \<and> hitsNonDir d0 (nameComps nm)
        \<longrightarrow> MkdirAll vfs nm perm = (Some ENOTDIR, vfs))"
proof (intro conjI impI)
  assume "perm AND ModeType \<noteq> 0"
  then show "MkdirAll vfs nm perm = (Some errBadMode, vfs)"
    by (simp add: MkdirAll_def mkdirCommon_def)
next
  assume a: "perm AND ModeType = 0 \<and> walkStart vfs nm = Some d0 \<and> allDirs d0 (nameComps nm)"
  define s where "s = (if nm \<noteq> [] \<and> hd nm = CHR ''/'' then tl nm else nm)"
  have cs: "nameComps s = nameComps nm" by (simp add: s_def nameComps_tl)
  from a find_node_walkStart obtain ref0 where f: "find_node vfs nm = findLoop d0 ref0 s"
    unfolding s_def by blast
  from a cs have "allDirs d0 (nameComps s)" by simp
  from findLoop_allDirs [OF this, of ref0] f obtain ref' d'
    where "find_node vfs nm = (ref', d', [], None)" "IsDir (mode d')" by auto
  with a show "MkdirAll vfs nm perm = (None, vfs)"
    by (simp add: MkdirAll_def mkdirCommon_def mkdirCommonAll_Nil IsNotExist_def)
next
  assume a: "perm AND ModeType = 0 \<and> walkStart vfs nm = Some d0 \<and> hitsNonDir d0 (nameComps nm)"
  define s where "s = (if nm \<noteq> [] \<and> hd nm = CHR ''/'' then tl nm else nm)"
  have cs: "nameComps s = nameComps nm" by (simp add: s_def nameComps_tl)
  from a find_node_walkStart obtain ref0 where f: "find_node vfs nm = findLoop d0 ref0 s"
    unfolding s_def by blast
  from a cs have "hitsNonDir d0 (nameComps s)" by simp
  from findLoop_hitsNonDir [OF this, of ref0] f obtain ref' d' rem e
    where "find_node vfs nm = (ref', d', rem, e)" "\<not> IsDir (mode d')" "e = None \<or> e = Some ENOTDIR"
    by auto
  with a show "MkdirAll vfs nm perm = (Some ENOTDIR, vfs)"
    by (auto simp: MkdirAll_def mkdirCommon_def IsNotExist_def)
qed

theorem MkdirAll_cases_witness:
  "ModeDir AND ModeType \<noteq> 0 \<and> MkdirAll testFS ''/dir'' ModeDir = (Some errBadMode, testFS)
   \<and> (0x1FF :: 32 word) AND ModeType = 0 \<and> walkStart testFS ''/dir'' = Some (root testFS)
   \<and> allDirs (root testFS) (nameComps ''/dir'')
   \<and> MkdirAll testFS ''/dir'' 0x1FF = (None, testFS)
   \<and> walkStart testFS ''/orig/sub'' = Some (root testFS)
   \<and> hitsNonDir (root testFS) (nameComps ''/orig/sub'')
   \<and> MkdirAll testFS ''/orig/sub'' 0x1FF = (Some ENOTDIR, testFS)"
proof -
  have p1: "ModeDir AND ModeType \<noteq> 0" by code_simp
  have p2: "(0x1FF :: 32 word) AND ModeType = 0" by code_simp
  have w1: "walkStart testFS ''/dir'' = Some (root testFS)" by (simp add: walkStart_def)
  have w2: "walkStart testFS ''/orig/sub'' = Some (root testFS)" by (simp add: walkStart_def)
  have a: "allDirs (root testFS) (nameComps ''/dir'')" by code_simp
  have n: "hitsNonDir (root testFS) (nameComps ''/orig/sub'')" by code_simp
  from MkdirAll_cases [of ModeDir testFS "''/dir''"] p1
  have r1: "MkdirAll testFS ''/dir'' ModeDir = (Some errBadMode, testFS)" by blast
  from MkdirAll_cases [of "0x1FF" testFS "''/dir''" "root testFS"] p2 w1 a
  have r2: "MkdirAll testFS ''/dir'' 0x1FF = (None, testFS)" by blast
  from MkdirAll_cases [of "0x1FF" testFS "''/orig/sub''" "root testFS"] p2 w2 n
  have r3: "MkdirAll testFS ''/orig/sub'' 0x1FF = (Some ENOTDIR, testFS)" by blast
  from p1 p2 w1 w2 a n r1 r2 r3 show ?thesis by blast
qed

text \<open>
  The claim as stated fails: the sticky bit is not a permission bit, and \<open>MkdirAll\<close>
  with a mode that has it returns nil and makes the directory.
\<close>

theorem MkdirAll_nonpermission_bit_counterexample:
  "(ModeSticky OR 0x1FF) AND NOT ModePerm \<noteq> 0
   \<and> MkdirAll emptyFS ''/x'' (ModeSticky OR 0x1FF)
       = (None, \<lparr>root = dirNode [] [Node ''x'' (ModeSticky OR 0x1FF OR ModeDir) None [] []],
                 cwd = ''/'', AbsError = None\<rparr>)"
  by code_simp



subsection \<open>Lemmas on paths and on the tar walk\<close>

lemma Join_Split: "Join (Split s c) [c] = s"
proof (induction s)
  case Nil
  then show ?case by simp
next
  case (Cons x xs)
  show ?case
  proof (cases "x = c")
    case True
    with Cons Split_not_Nil [of xs c] show ?thesis by (simp add: Join_Cons)
  next
    case False
    obtain p ps where sp: "Split xs c = p # ps"
      using Split_not_Nil [of xs c] by (cases "Split xs c") auto
    with Cons have j: "Join (p # ps) [c] = xs" by simp
    show ?thesis
    proof (cases ps)
      case Nil
      with False sp j show ?thesis by simp
    next
      case (Cons q qs)
      with False sp j show ?thesis by simp
    qed
  qed
qed

lemma Join_append: "xs \<noteq> [] \<Longrightarrow> ys \<noteq> [] \<Longrightarrow> Join (xs @ ys) sep = Join xs sep @ sep @ Join ys sep"
proof (induction xs)
  case Nil
  then show ?case by simp
next
  case (Cons x xs)
  show ?case
  proof (cases xs)
    case Nil
    with Cons.prems show ?thesis by (simp add: Join_Cons)
  next
    case (Cons a as)
    with Cons.IH Cons.prems show ?thesis by simp
  qed
qed

lemma within_iff_prefix:
  "(HasPrefix t r \<and> (length t = length r \<or> t ! length r = c))
     \<longleftrightarrow> prefix (Split r c) (Split t c)"
proof
  assume a: "HasPrefix t r \<and> (length t = length r \<or> t ! length r = c)"
  then obtain rest where t: "t = r @ rest"
    by (metis HasPrefix_def append_take_drop_id)
  show "prefix (Split r c) (Split t c)"
  proof (cases rest)
    case Nil
    with t show ?thesis by simp
  next
    case (Cons x xs)
    with a t have "x = c" by (simp add: nth_append)
    with Cons t show ?thesis by (simp add: Split_append_sep)
  qed
next
  assume "prefix (Split r c) (Split t c)"
  then obtain zs where z: "Split t c = Split r c @ zs" by (auto simp: prefix_def)
  have t: "t = Join (Split r c @ zs) [c]" using Join_Split [of t c] z by simp
  show "HasPrefix t r \<and> (length t = length r \<or> t ! length r = c)"
  proof (cases zs)
    case Nil
    with t have "t = r" by (simp add: Join_Split)
    then show ?thesis by (simp add: HasPrefix_def)
  next
    case (Cons y ys)
    then have "zs \<noteq> []" by simp
    from Join_append [OF Split_not_Nil this, of r c "[c]"] t
    have "t = r @ [c] @ Join zs [c]" by (simp add: Join_Split)
    then show ?thesis by (simp add: HasPrefix_def nth_append)
  qed
qed

lemma isFileWithinBindHostRoot_iff:
  "isFileWithinBindHostRoot h target
     \<longleftrightarrow> t_rootHostFileVol h = [] \<and> componentwiseUnder (t_rootHostFileWithoutVol h) target"
  using within_iff_prefix [of target "t_rootHostFileWithoutVol h" Separator]
  by (auto simp: isFileWithinBindHostRoot_def componentwiseUnder_def filepath_VolumeName_def Let_def)

lemma ModeSymlink_in_ModeType: "ModeType AND ModeSymlink = ModeSymlink"
  by code_simp

lemma symlink_not_regular: "m AND ModeSymlink \<noteq> 0 \<Longrightarrow> \<not> IsRegular m"
proof
  assume a: "m AND ModeSymlink \<noteq> 0" and "IsRegular m"
  then have "m AND ModeType = 0" by (simp add: IsRegular_def)
  then have "(m AND ModeType) AND ModeSymlink = 0" by simp
  then have "m AND (ModeType AND ModeSymlink) = 0" by (simp add: and.assoc)
  with a show False by (simp add: ModeSymlink_in_ModeType)
qed

lemma FileInfoHeader_symlink:
  assumes "mode nd AND ModeSymlink \<noteq> 0" and "\<not> IsDir (mode nd)"
  shows "FileInfoHeader (fileInfoOf nd) link =
     Inr \<lparr>Name = name nd, Typeflag = TypeSymlink, Linkname = link, Size = 0\<rparr>"
  using assms symlink_not_regular [OF assms(1)]
  by (simp add: FileInfoHeader_def fileInfoOf_def Let_def)

lemma endHeaderCommon_sound:
  "soundWriter h \<Longrightarrow> fst (endHeaderCommon h header) = None \<and> soundWriter (snd (endHeaderCommon h header))"
  by (simp add: soundWriter_def endHeaderCommon_def WriteHeader_def)

lemma runRegular_sound:
  "soundWriter h \<Longrightarrow> soundWriter (snd (runRegular h nd hostFile fileNameInTar))"
  by (auto simp: runRegular_def soundWriter_def endHeaderCommon_def WriteHeader_def Write_def
      split: sum.splits option.splits prod.splits)

lemma runSymlink_sound:
  "soundWriter h \<Longrightarrow> soundWriter (snd (runSymlink vfs h nd hostFile fileNameInTar))"
  by (auto simp: runSymlink_def soundWriter_def endHeaderCommon_def WriteHeader_def Let_def
      split: sum.splits option.splits prod.splits)

lemma runRecursive_sound:
  "soundWriter h \<Longrightarrow> soundWriter (snd (runRecursive vfs h nd hostFile fileNameInTar))"
  and runDirectory_sound:
  "soundWriter h \<Longrightarrow> soundWriter (snd (runDirectory vfs h nd hostFile fileNameInTar))"
  and runEntries_sound:
  "soundWriter h \<Longrightarrow> soundWriter (snd (runEntries vfs h nds hostFile headerName))"
proof (induction vfs h nd hostFile fileNameInTar and vfs h nd hostFile fileNameInTar
    and vfs h nds hostFile headerName rule: runRecursive_runDirectory_runEntries.induct)
  case (1 vfs h nd hostFile fileNameInTar)
  then show ?case
    by (subst runRecursive.simps) (simp add: runSymlink_sound runRegular_sound)
next
  case (2 vfs h nd hostFile fileNameInTar)
  show ?case
  proof (cases "err nd")
    case (Some e)
    with 2(2) show ?thesis by (subst runDirectory.simps) simp
  next
    case None
    show ?thesis
    proof (cases "FileInfoHeader (fileInfoOf nd) []")
      case (Inl e)
      with None 2(2) show ?thesis by (subst runDirectory.simps) simp
    next
      case (Inr header)
      obtain e h' where eh: "endHeaderCommon h (header\<lparr>Name := fileNameInTar @ ''/''\<rparr>) = (e, h')"
        by (cases "endHeaderCommon h (header\<lparr>Name := fileNameInTar @ ''/''\<rparr>)")
      with endHeaderCommon_sound [OF 2(2), of "header\<lparr>Name := fileNameInTar @ ''/''\<rparr>"]
      have e: "e = None" and s: "soundWriter h'" by simp_all
      from 2(1) [OF None Inr eh [symmetric] e s]
      have "soundWriter (snd (runEntries vfs h' (extraNodes nd) hostFile (fileNameInTar @ ''/'')))" .
      with None Inr eh e show ?thesis by (subst runDirectory.simps) simp
    qed
  qed
next
  case (3 vfs h hostFile headerName)
  then show ?case by simp
next
  case (4 vfs h entry rest hostFile headerName)
  obtain e h' where r: "runRecursive vfs h entry (hostFile @ [Separator] @ name entry)
      (headerName @ name entry) = (e, h')"
    by (cases "runRecursive vfs h entry (hostFile @ [Separator] @ name entry) (headerName @ name entry)")
  from 4(1) [OF 4(3)] r have s: "soundWriter h'" by simp
  show ?case
  proof (cases e)
    case None
    from 4(2) [OF r [symmetric] None s] r None show ?thesis by simp
  next
    case (Some a)
    with r s show ?thesis by simp
  qed
qed

subsection \<open>The tar materializer\<close>

text \<open>
  Claim C2, as the code has it. When the call of \<open>run\<close> in
  \<open>bindMouseHostFileToTar\<close> returns an error and the writer has not been marked
  possibly-corrupt, one header of an empty directory named \<open>renameTo + "/"\<close> is
  handed to the writer and the call returns \<open>isDir = true\<close> with the result of
  that write: nil when the write succeeds, and the entry is then the last of the
  stream; the error of the write otherwise. When the writer has been marked
  possibly-corrupt, the error of \<open>run\<close> is returned unchanged with
  \<open>isDir = false\<close>. The witness has the scenario of the claim: for \<open>/origerr\<close>
  with its seeded error, \<open>("origerr", "renamed2")\<close> gives the one directory entry
  \<open>renamed2/\<close> and \<open>(true, nil)\<close>.
\<close>

theorem bindMouseHostFileToTar_recovery:
  assumes "bindMount_run vfs (newHelper w hostFile renameTo) hostFile renameTo = ((d, Some e), h')"
  shows "(\<not> t_twMayBeCorrupt h' \<longrightarrow>
            bindMouseHostFileToTar vfs w hostFile renameTo =
              ((True, fst (WriteHeader (t_tw h')
                             \<lparr>Name = renameTo @ ''/'', Typeflag = TypeDir, Linkname = [], Size = 0\<rparr>)),
               snd (WriteHeader (t_tw h')
                      \<lparr>Name = renameTo @ ''/'', Typeflag = TypeDir, Linkname = [], Size = 0\<rparr>))
            \<and> (fst (WriteHeader (t_tw h')
                       \<lparr>Name = renameTo @ ''/'', Typeflag = TypeDir, Linkname = [], Size = 0\<rparr>) = None
                 \<longrightarrow> entries (snd (WriteHeader (t_tw h')
                         \<lparr>Name = renameTo @ ''/'', Typeflag = TypeDir, Linkname = [], Size = 0\<rparr>))
                     = entries (t_tw h')
                         @ [(\<lparr>Name = renameTo @ ''/'', Typeflag = TypeDir, Linkname = [], Size = 0\<rparr>, [])]))
       \<and> (t_twMayBeCorrupt h' \<longrightarrow>
            bindMouseHostFileToTar vfs w hostFile renameTo = ((False, Some e), t_tw h'))"
  using assms
  by (auto simp: bindMouseHostFileToTar_def endHeaderCommon_def WriteHeader_def
      split: prod.splits option.splits list.splits)

theorem bindMouseHostFileToTar_recovery_witness:
  "bindMount_run testFS (newHelper emptyWriter ''origerr'' ''renamed2'') ''origerr'' ''renamed2''
     = ((False, Some errTest), newHelper emptyWriter ''origerr'' ''renamed2'')
   \<and> \<not> t_twMayBeCorrupt (newHelper emptyWriter ''origerr'' ''renamed2'')
   \<and> bindMouseHostFileToTar testFS emptyWriter ''origerr'' ''renamed2''
     = ((True, None),
        \<lparr>entries = [(\<lparr>Name = ''renamed2/'', Typeflag = TypeDir, Linkname = [], Size = 0\<rparr>, [])],
         faults = []\<rparr>)
   \<and> bindMount_run testFS (newHelper \<lparr>entries = [], faults = [None, Some errTest]\<rparr> ''dir'' ''renamed'')
        ''dir'' ''renamed''
     = ((False, Some errTest),
        (newHelper \<lparr>entries = [(\<lparr>Name = ''renamed/'', Typeflag = TypeDir, Linkname = [], Size = 0\<rparr>, [])],
                    faults = []\<rparr> ''dir'' ''renamed'')\<lparr>t_twMayBeCorrupt := True\<rparr>)
   \<and> bindMouseHostFileToTar testFS \<lparr>entries = [], faults = [None, Some errTest]\<rparr> ''dir'' ''renamed''
     = ((False, Some errTest),
        \<lparr>entries = [(\<lparr>Name = ''renamed/'', Typeflag = TypeDir, Linkname = [], Size = 0\<rparr>, [])],
         faults = []\<rparr>)"
proof -
  have r1: "bindMount_run testFS (newHelper emptyWriter ''origerr'' ''renamed2'') ''origerr'' ''renamed2''
     = ((False, Some errTest), newHelper emptyWriter ''origerr'' ''renamed2'')"
    by code_simp
  have n1: "\<not> t_twMayBeCorrupt (newHelper emptyWriter ''origerr'' ''renamed2'')"
    by (simp add: newHelper_def)
  have w1: "WriteHeader (t_tw (newHelper emptyWriter ''origerr'' ''renamed2''))
              \<lparr>Name = ''renamed2'' @ ''/'', Typeflag = TypeDir, Linkname = [], Size = 0\<rparr>
     = (None, \<lparr>entries = [(\<lparr>Name = ''renamed2/'', Typeflag = TypeDir, Linkname = [], Size = 0\<rparr>, [])],
               faults = []\<rparr>)"
    by code_simp
  have r2: "bindMount_run testFS (newHelper \<lparr>entries = [], faults = [None, Some errTest]\<rparr> ''dir'' ''renamed'')
        ''dir'' ''renamed''
     = ((False, Some errTest),
        (newHelper \<lparr>entries = [(\<lparr>Name = ''renamed/'', Typeflag = TypeDir, Linkname = [], Size = 0\<rparr>, [])],
                    faults = []\<rparr> ''dir'' ''renamed'')\<lparr>t_twMayBeCorrupt := True\<rparr>)"
    by code_simp
  from bindMouseHostFileToTar_recovery [OF r1] n1 w1
  have b1: "bindMouseHostFileToTar testFS emptyWriter ''origerr'' ''renamed2''
     = ((True, None),
        \<lparr>entries = [(\<lparr>Name = ''renamed2/'', Typeflag = TypeDir, Linkname = [], Size = 0\<rparr>, [])],
         faults = []\<rparr>)"
    by simp
  from bindMouseHostFileToTar_recovery [OF r2]
  have b2: "bindMouseHostFileToTar testFS \<lparr>entries = [], faults = [None, Some errTest]\<rparr> ''dir'' ''renamed''
     = ((False, Some errTest),
        \<lparr>entries = [(\<lparr>Name = ''renamed/'', Typeflag = TypeDir, Linkname = [], Size = 0\<rparr>, [])],
         faults = []\<rparr>)"
    by (simp add: newHelper_def)
  from r1 n1 b1 r2 b2 show ?thesis by blast
qed

text \<open>
  The claim as stated fails when the write of the placeholder fails: the host file is
  missing, the writer has not been marked, and the call returns \<open>isDir = true\<close>
  with the error of the writer, not nil.
\<close>

theorem bindMouseHostFileToTar_failed_placeholder_counterexample:
  "bindMount_run testFS (newHelper closedWriter ''missing'' ''renamed'') ''missing'' ''renamed''
     = ((False, Some ErrNotExist), newHelper closedWriter ''missing'' ''renamed'')
   \<and> \<not> t_twMayBeCorrupt (newHelper closedWriter ''missing'' ''renamed'')
   \<and> bindMouseHostFileToTar testFS closedWriter ''missing'' ''renamed''
     = ((True, Some (ErrOther ''archive/tar: write after close'')), \<lparr>entries = [], faults = []\<rparr>)"
  by code_simp

text \<open>
  Claim C3, as the code has it. For a symbolic link (a mode with the link bit and
  without the directory bit) whose target can be read and resolved to \<open>T\<close>
  (\<open>linkResolvedOf\<close>: \<open>filepath.Abs\<close> of a link that starts
  with a slash or backslash, otherwise the link joined to the directory of the host
  path of the link), \<open>runSymlink\<close> hands a symlink header to the writer if and
  only if the volume of \<open>T\<close> is the volume of the root and the path of \<open>T\<close> is
  equal to the path of the root or nested under it component by component; the link
  name of the header is the relative path from the directory of the entry in the tar
  tree to \<open>renameTo\<close> followed by what \<open>T\<close> has after the root; otherwise the
  error returned quotes the host path of the link and the root of the bind volume.
\<close>

theorem runSymlink_containment:
  assumes "mode nd AND ModeSymlink \<noteq> 0" and "\<not> IsDir (mode nd)" and "err nd = None"
    and "linkResolvedOf vfs hostFile (extraBytes nd) = Inr T"
  shows "runSymlink vfs h nd hostFile fileNameInTar =
     (if t_rootHostFileVol h = filepath_VolumeName T
         \<and> componentwiseUnder (t_rootHostFileWithoutVol h) (drop (length (filepath_VolumeName T)) T)
      then endHeaderCommon h
             \<lparr>Name = fileNameInTar, Typeflag = TypeSymlink,
              Linkname =
                (case filepath_Rel (filepath_Dir fileNameInTar)
                        (t_renameTo h @ drop (length (t_rootHostFile h)) T) of
                   Inl e \<Rightarrow> [] | Inr rel \<Rightarrow> rel),
              Size = 0\<rparr>
      else (Some (ErrSymlinkOutside hostFile (t_rootHostFile h)), h))
     \<and> quotedNames (ErrSymlinkOutside hostFile (t_rootHostFile h)) = [hostFile, t_rootHostFile h]"
  using assms(3,4) FileInfoHeader_symlink [OF assms(1,2)]
  by (auto simp: runSymlink_def isFileWithinBindHostRoot_iff filepath_ToSlash_def Let_def
      filepath_VolumeName_def)

theorem runSymlink_containment_witness:
  "runSymlink testFS (newHelper emptyWriter ''dir2'' ''renamed'') (symlinkNode ''symlink'' ''file'')
       ''dir2/symlink'' ''renamed/symlink''
     = (None, (newHelper emptyWriter ''dir2'' ''renamed'')
          \<lparr>t_tw := \<lparr>entries = [(\<lparr>Name = ''renamed/symlink'', Typeflag = TypeSymlink,
                                   Linkname = ''file'', Size = 0\<rparr>, [])],
                    faults = []\<rparr>\<rparr>)
   \<and> runSymlink testFS (newHelper emptyWriter ''dir3'' ''renamed'') (symlinkNode ''symlink'' ''/dir2'')
       ''dir3/symlink'' ''renamed/symlink''
     = (Some (ErrSymlinkOutside ''dir3/symlink'' ''dir3''), newHelper emptyWriter ''dir3'' ''renamed'')"
proof -
  have m: "mode (symlinkNode ''symlink'' x) AND ModeSymlink \<noteq> 0" for x
    by (simp add: symlinkNode_def ModeSymlink_def)
  have d: "\<not> IsDir (mode (symlinkNode ''symlink'' x))" for x
    by (simp add: symlinkNode_def IsDir_def ModeSymlink_def ModeDir_def)
  have e: "err (symlinkNode ''symlink'' x) = None" for x
    by (simp add: symlinkNode_def)
  have t1: "linkResolvedOf testFS ''dir2/symlink'' (extraBytes (symlinkNode ''symlink'' ''file''))
      = Inr ''dir2/file''"
    by code_simp
  have t2: "linkResolvedOf testFS ''dir3/symlink'' (extraBytes (symlinkNode ''symlink'' ''/dir2''))
      = Inr ''/dir2''"
    by code_simp
  have c1: "t_rootHostFileVol (newHelper emptyWriter ''dir2'' ''renamed'') = filepath_VolumeName ''dir2/file''
      \<and> componentwiseUnder (t_rootHostFileWithoutVol (newHelper emptyWriter ''dir2'' ''renamed''))
           (drop (length (filepath_VolumeName ''dir2/file'')) ''dir2/file'')"
    by code_simp
  have c2: "\<not> (t_rootHostFileVol (newHelper emptyWriter ''dir3'' ''renamed'') = filepath_VolumeName ''/dir2''
      \<and> componentwiseUnder (t_rootHostFileWithoutVol (newHelper emptyWriter ''dir3'' ''renamed''))
           (drop (length (filepath_VolumeName ''/dir2'')) ''/dir2''))"
    by code_simp
  have w: "endHeaderCommon (newHelper emptyWriter ''dir2'' ''renamed'')
             \<lparr>Name = ''renamed/symlink'', Typeflag = TypeSymlink,
              Linkname =
                (case filepath_Rel (filepath_Dir ''renamed/symlink'')
                        (t_renameTo (newHelper emptyWriter ''dir2'' ''renamed'')
                           @ drop (length (t_rootHostFile (newHelper emptyWriter ''dir2'' ''renamed''))) ''dir2/file'') of
                   Inl e \<Rightarrow> [] | Inr rel \<Rightarrow> rel),
              Size = 0\<rparr>
      = (None, (newHelper emptyWriter ''dir2'' ''renamed'')
          \<lparr>t_tw := \<lparr>entries = [(\<lparr>Name = ''renamed/symlink'', Typeflag = TypeSymlink,
                                   Linkname = ''file'', Size = 0\<rparr>, [])],
                    faults = []\<rparr>\<rparr>)"
    by code_simp
  have r: "t_rootHostFile (newHelper emptyWriter ''dir3'' ''renamed'') = ''dir3''"
    by (simp add: newHelper_def)
  from runSymlink_containment [OF m d e t1, of "newHelper emptyWriter ''dir2'' ''renamed''" "''renamed/symlink''"]
    runSymlink_containment [OF m d e t2, of "newHelper emptyWriter ''dir3'' ''renamed''" "''renamed/symlink''"]
    c1 c2 w r
  show ?thesis by simp
qed

text \<open>
  The claim as stated fails on the last point: the error names the link and the root
  of the bind volume, and the resolved target \<open>/dir2\<close> is not in it.
\<close>

theorem runSymlink_error_names_counterexample:
  "linkResolvedOf testFS ''dir3/symlink'' ''/dir2'' = Inr ''/dir2''
   \<and> fst (runSymlink testFS (newHelper emptyWriter ''dir3'' ''renamed'')
            (symlinkNode ''symlink'' ''/dir2'') ''dir3/symlink'' ''renamed/symlink'')
       = Some (ErrSymlinkOutside ''dir3/symlink'' ''dir3'')
   \<and> ''/dir2'' \<notin> set (quotedNames (ErrSymlinkOutside ''dir3/symlink'' ''dir3''))"
  by code_simp

text \<open>
  Claim C4 fails on the code. For \<open>/dir3/symlink\<close> with target \<open>/dir2\<close> the
  walk does fail with the symlink error, after the header \<open>renamed/\<close>, but the
  writer has not been marked, so \<open>run\<close> writes a directory header named after the
  host file and \<open>bindMouseHostFileToTar("dir3", "renamed")\<close> returns
  \<open>(true, nil)\<close>.
\<close>

theorem bindMouseHostFileToTar_symlink_escape_recovered:
  "bindMouseHostFileToTar testFS emptyWriter ''dir3'' ''renamed''
     = ((True, None),
        \<lparr>entries = [(\<lparr>Name = ''renamed/'', Typeflag = TypeDir, Linkname = [], Size = 0\<rparr>, []),
                    (\<lparr>Name = ''dir3//'', Typeflag = TypeDir, Linkname = [], Size = 0\<rparr>, [])],
         faults = []\<rparr>)
   \<and> runRecursive testFS (newHelper emptyWriter ''dir3'' ''renamed'')
        (dirNode ''dir3'' [symlinkNode ''symlink'' ''/dir2'']) ''dir3'' ''renamed''
     = (Some (ErrSymlinkOutside ''dir3/symlink'' ''dir3''),
        (newHelper emptyWriter ''dir3'' ''renamed'')
          \<lparr>t_tw := \<lparr>entries = [(\<lparr>Name = ''renamed/'', Typeflag = TypeDir, Linkname = [], Size = 0\<rparr>, [])],
                    faults = []\<rparr>\<rparr>)"
  by code_simp

text \<open>
  More generally, with a writer that never fails the call returns a nil error for
  every file system and every host file.
\<close>

theorem bindMouseHostFileToTar_nil_error_without_faults:
  assumes "faults w = []"
  shows "snd (fst (bindMouseHostFileToTar vfs w hostFile renameTo)) = None"
proof -
  define h0 where "h0 = newHelper w hostFile renameTo"
  from assms have s0: "soundWriter h0" by (simp add: h0_def newHelper_def soundWriter_def)
  obtain d e h1 where r: "bindMount_run vfs h0 hostFile renameTo = ((d, e), h1)"
    by (cases "bindMount_run vfs h0 hostFile renameTo") auto
  have s1: "soundWriter h1"
  proof (cases "Lstat vfs hostFile")
    case (Inl x)
    with r s0 show ?thesis by (simp add: bindMount_run_def)
  next
    case (Inr nd)
    obtain e2 h2 where rr: "runRecursive vfs h0 nd hostFile renameTo = (e2, h2)"
      by (cases "runRecursive vfs h0 nd hostFile renameTo")
    from runRecursive_sound [OF s0, of vfs nd hostFile renameTo] rr have s2: "soundWriter h2" by simp
    show ?thesis
    proof (cases e2)
      case None
      with r Inr rr s2 show ?thesis by (simp add: bindMount_run_def)
    next
      case (Some a)
      from s2 have nc: "\<not> t_twMayBeCorrupt h2" by (simp add: soundWriter_def)
      show ?thesis
      proof (cases "FileInfoHeader (fileInfoOf nd) []")
        case (Inl x)
        with r Inr rr Some nc s2 show ?thesis by (simp add: bindMount_run_def)
      next
        case (Inr header)
        with r \<open>Lstat vfs hostFile = Inr nd\<close> rr Some nc
          endHeaderCommon_sound [OF s2, of "header\<lparr>Typeflag := TypeDir, Name := Name header @ ''/''\<rparr>"]
        show ?thesis by (auto simp: bindMount_run_def split: prod.splits)
      qed
    qed
  qed
  show ?thesis
  proof (cases e)
    case None
    with r show ?thesis by (simp add: bindMouseHostFileToTar_def h0_def)
  next
    case (Some a)
    from s1 have nc: "\<not> t_twMayBeCorrupt h1" by (simp add: soundWriter_def)
    with r Some endHeaderCommon_sound [OF s1,
        of "\<lparr>Name = renameTo @ ''/'', Typeflag = TypeDir, Linkname = [], Size = 0\<rparr>"]
    show ?thesis by (auto simp: bindMouseHostFileToTar_def h0_def split: prod.splits)
  qed
qed
end
